theory Spec2Isabelle
  imports Complex_Main
begin

section \<open>The scene store of src/stores/sceneStore.tsx\<close>

text \<open>
  The store keeps one scene (five sequences of entities) and offers one action per
  mutation. Every action but \<open>setScene\<close> and \<open>updateScene\<close> runs a recipe on a mutable
  draft of the current state (\<open>produce(get(), recipe)\<close>) and then publishes some of the
  sequences of the result with \<open>set\<close>. The types of \<open>src/types\<close>, the helpers of
  \<open>src/utils\<close>, the constants of \<open>src/config\<close> and the schema of \<open>src/validation/scene\<close>
  are imported by the file and are not part of it.
\<close>

subsection \<open>Entities\<close>

text \<open>
  Modelled from the spec: the entity types of \<open>src/types\<close>. A node is a positioned, sized
  shape with an identity; an anchor is either bound to a node (\<open>ref.type === 'NODE'\<close>,
  \<open>ref.id\<close>) or free (an explicit coordinate); a connector has an identity, its anchors
  and a derived path; a text box carries a text, a font size and a derived size; icons and
  rectangles are addressed by identity. JavaScript numbers are never computed with here,
  only stored and handed to collaborators; they are reals.
\<close>

type_synonym coords = "real \<times> real"

record dimensions =
  width :: real
  height :: real

record icon =
  icon_id :: string

record node =
  node_id :: string
  node_position :: coords
  node_size :: dimensions

datatype anchorRef = NODE string | FREE coords

record anchor =
  ref :: anchorRef

type_synonym path = "coords list"

record connector =
  connector_id :: string
  anchors :: "anchor list"
  path :: path

record textBox =
  textBox_id :: string
  textBox_position :: coords
  textBox_text :: string
  textBox_fontSize :: real
  textBox_size :: dimensions

record rectangle =
  rectangle_id :: string
  rectangle_position :: coords
  rectangle_size :: dimensions

record scene =
  icons :: "icon list"
  nodes :: "node list"
  connectors :: "connector list"
  textBoxes :: "textBox list"
  rectangles :: "rectangle list"

definition initialScene :: scene where
  "initialScene = \<lparr>icons = [], nodes = [], connectors = [], textBoxes = [], rectangles = []\<rparr>"

subsection \<open>Partial updates and the shallow merge\<close>

text \<open>
  The \<open>updates\<close> argument of an update action is a partial entity: a field is \<open>None\<close>
  when the object has no such field, which is when the source's \<open>updates.text !== undefined\<close>
  is false and its \<open>updates.text ?? textBox.text\<close> takes the old text. The object spread
  \<open>{...item, ...updates}\<close> takes every field of \<open>updates\<close> that is there and the
  item's field otherwise. An \<open>updates\<close> object with a field that is there and holds
  \<open>undefined\<close> has no counterpart here: the fields of the entities are of types without
  \<open>undefined\<close>.
\<close>

record nodeUpdates =
  upd_node_id :: "string option"
  upd_node_position :: "coords option"
  upd_node_size :: "dimensions option"

record connectorUpdates =
  upd_connector_id :: "string option"
  upd_anchors :: "anchor list option"
  upd_path :: "path option"

record textBoxUpdates =
  upd_textBox_id :: "string option"
  upd_textBox_position :: "coords option"
  upd_text :: "string option"
  upd_fontSize :: "real option"
  upd_size :: "dimensions option"

record rectangleUpdates =
  upd_rectangle_id :: "string option"
  upd_rectangle_position :: "coords option"
  upd_rectangle_size :: "dimensions option"

definition orElse :: "'a option \<Rightarrow> 'a \<Rightarrow> 'a" where
  "orElse u old = (case u of None \<Rightarrow> old | Some v \<Rightarrow> v)"

definition spreadNode :: "node \<Rightarrow> nodeUpdates \<Rightarrow> node" where
  "spreadNode n u =
     \<lparr>node_id = orElse (upd_node_id u) (node_id n),
      node_position = orElse (upd_node_position u) (node_position n),
      node_size = orElse (upd_node_size u) (node_size n)\<rparr>"

definition spreadConnector :: "connector \<Rightarrow> connectorUpdates \<Rightarrow> connector" where
  "spreadConnector c u =
     \<lparr>connector_id = orElse (upd_connector_id u) (connector_id c),
      anchors = orElse (upd_anchors u) (anchors c),
      path = orElse (upd_path u) (path c)\<rparr>"

definition spreadTextBox :: "textBox \<Rightarrow> textBoxUpdates \<Rightarrow> textBox" where
  "spreadTextBox t u =
     \<lparr>textBox_id = orElse (upd_textBox_id u) (textBox_id t),
      textBox_position = orElse (upd_textBox_position u) (textBox_position t),
      textBox_text = orElse (upd_text u) (textBox_text t),
      textBox_fontSize = orElse (upd_fontSize u) (textBox_fontSize t),
      textBox_size = orElse (upd_size u) (textBox_size t)\<rparr>"

definition spreadRectangle :: "rectangle \<Rightarrow> rectangleUpdates \<Rightarrow> rectangle" where
  "spreadRectangle r u =
     \<lparr>rectangle_id = orElse (upd_rectangle_id u) (rectangle_id r),
      rectangle_position = orElse (upd_rectangle_position u) (rectangle_position r),
      rectangle_size = orElse (upd_rectangle_size u) (rectangle_size r)\<rparr>"

subsection \<open>Errors\<close>

text \<open>
  What an action can throw: the error of the schema, and the error of a lookup by id, with
  the kind of entity looked for and the id.
\<close>

datatype kind = Node_kind | Connector_kind | TextBox_kind | Rectangle_kind

datatype error = ValidationError | NotFound kind string

subsection \<open>Drafts: arrays of object references\<close>

text \<open>
  A recipe mutates its draft in place, and a variable bound to an element of a draft array
  names the same object as the array slot does. A draft array is therefore an object store
  (\<open>heap\<close>, address \<open>a\<close> holds \<open>heap ! a\<close>) and the array proper (\<open>slots\<close>, slot \<open>i\<close>
  holds the address \<open>slots ! i\<close>). A draft starts with one object of its own per slot.
\<close>

record 'a draftArray =
  heap :: "'a list"
  slots :: "nat list"

definition createDraftArray :: "'a list \<Rightarrow> 'a draftArray" where
  "createDraftArray xs = \<lparr>heap = xs, slots = [0..<length xs]\<rparr>"

definition readObj :: "'a draftArray \<Rightarrow> nat \<Rightarrow> 'a" where
  "readObj d a = heap d ! a"

definition finishDraftArray :: "'a draftArray \<Rightarrow> 'a list" where
  "finishDraftArray d = map (readObj d) (slots d)"

text \<open>\<open>obj.field = v\<close>: the object at address \<open>a\<close> changes, for every holder of \<open>a\<close>.\<close>

definition writeObj :: "'a draftArray \<Rightarrow> nat \<Rightarrow> ('a \<Rightarrow> 'a) \<Rightarrow> 'a draftArray" where
  "writeObj d a f = d\<lparr>heap := (heap d)[a := f (heap d ! a)]\<rparr>"

text \<open>\<open>arr[i] = {...}\<close>: slot \<open>i\<close> gets the address of a new object.\<close>

definition setSlot :: "'a draftArray \<Rightarrow> nat \<Rightarrow> 'a \<Rightarrow> 'a draftArray" where
  "setSlot d i v = \<lparr>heap = heap d @ [v], slots = (slots d)[i := length (heap d)]\<rparr>"

text \<open>\<open>arr.push({...})\<close>.\<close>

definition push :: "'a draftArray \<Rightarrow> 'a \<Rightarrow> 'a draftArray" where
  "push d v = \<lparr>heap = heap d @ [v], slots = slots d @ [length (heap d)]\<rparr>"

text \<open>\<open>arr.splice(index, 1)\<close>.\<close>

definition splice1 :: "'a draftArray \<Rightarrow> nat \<Rightarrow> 'a draftArray" where
  "splice1 d index = d\<lparr>slots := take index (slots d) @ drop (Suc index) (slots d)\<rparr>"

text \<open>\<open>arr = arr.filter(p)\<close>.\<close>

definition filterDraft :: "('a \<Rightarrow> bool) \<Rightarrow> 'a draftArray \<Rightarrow> 'a draftArray" where
  "filterDraft p d = d\<lparr>slots := filter (\<lambda>a. p (readObj d a)) (slots d)\<rparr>"

record draftState =
  draft_icons :: "icon draftArray"
  draft_nodes :: "node draftArray"
  draft_connectors :: "connector draftArray"
  draft_textBoxes :: "textBox draftArray"
  draft_rectangles :: "rectangle draftArray"

definition createDraft :: "scene \<Rightarrow> draftState" where
  "createDraft s =
     \<lparr>draft_icons = createDraftArray (icons s),
      draft_nodes = createDraftArray (nodes s),
      draft_connectors = createDraftArray (connectors s),
      draft_textBoxes = createDraftArray (textBoxes s),
      draft_rectangles = createDraftArray (rectangles s)\<rparr>"

definition finishDraft :: "draftState \<Rightarrow> scene" where
  "finishDraft d =
     \<lparr>icons = finishDraftArray (draft_icons d),
      nodes = finishDraftArray (draft_nodes d),
      connectors = finishDraftArray (draft_connectors d),
      textBoxes = finishDraftArray (draft_textBoxes d),
      rectangles = finishDraftArray (draft_rectangles d)\<rparr>"

text \<open>
  \<open>produce(base, recipe)\<close>: the recipe runs on a draft of \<open>base\<close>; what it throws is
  thrown by \<open>produce\<close>, otherwise the finished draft is returned.
\<close>

definition produce :: "scene \<Rightarrow> (draftState \<Rightarrow> error + draftState) \<Rightarrow> error + scene" where
  "produce base recipe =
     (case recipe (createDraft base) of
        Inl e \<Rightarrow> Inl e
      | Inr d \<Rightarrow> Inr (finishDraft d))"

subsection \<open>The helpers of src/utils\<close>

fun findIndex :: "('a \<Rightarrow> bool) \<Rightarrow> 'a list \<Rightarrow> nat option" where
  "findIndex P [] = None"
| "findIndex P (x # xs) = (if P x then Some 0 else map_option Suc (findIndex P xs))"

text \<open>
  Modelled from the spec: \<open>getItemById\<close> of \<open>src/utils\<close>, which the file calls as
  \<open>getItemById(draftState.nodes, id)\<close> and destructures into \<open>item\<close> and \<open>index\<close>.
  The spec: an operation "locates the target entity by id within its sequence - fails with
  NotFound if absent", and "Error taxonomy for all byId lookups: NotFound(kind, id)".
  The element type of the call (a type argument in the source) is explicit here as the
  kind and the projection to the id. The item is the located element itself, so its
  address; the index is the first slot whose object has the id.
\<close>

definition getItemById ::
  "kind \<Rightarrow> ('a \<Rightarrow> string) \<Rightarrow> 'a draftArray \<Rightarrow> string \<Rightarrow> error + (nat \<times> nat)" where
  "getItemById k idOf items i =
     (case findIndex (\<lambda>a. idOf (readObj items a) = i) (slots items) of
        None \<Rightarrow> Inl (NotFound k i)
      | Some index \<Rightarrow> Inr (slots items ! index, index))"

text \<open>
  Modelled from the spec: \<open>getAllAnchors\<close> of \<open>src/utils\<close>: "allAnchors is the flattened
  anchor set of all connectors".
\<close>

definition getAllAnchors :: "connector list \<Rightarrow> anchor list" where
  "getAllAnchors cs = concat (map anchors cs)"

record textStyle =
  fontSize :: real
  fontFamily :: string
  fontWeight :: string

text \<open>
  The other imports are parameters of the model: the schema (\<open>sceneInput.parse\<close> throws
  when the input does not pass, here \<open>False\<close>), the normalisers of inputs, the routing
  function \<open>getConnectorPath({anchors, nodes, allAnchors})\<close>, the text measure
  \<open>getTextWidth(text, style)\<close> and the two constants.
\<close>

record ('raw, 'ni, 'ci, 'ri, 'ti) utils =
  sceneInput_parse :: "'raw \<Rightarrow> bool"
  sceneInputToScene :: "'raw \<Rightarrow> scene"
  nodeInputToNode :: "'ni \<Rightarrow> node"
  connectorInputToConnector :: "'ci \<Rightarrow> node list \<Rightarrow> anchor list \<Rightarrow> connector"
  rectangleInputToRectangle :: "'ri \<Rightarrow> rectangle"
  textBoxInputToTextBox :: "'ti \<Rightarrow> textBox"
  getConnectorPath :: "anchor list \<Rightarrow> node list \<Rightarrow> anchor list \<Rightarrow> path"
  getTextWidth :: "string \<Rightarrow> textStyle \<Rightarrow> real"
  DEFAULT_FONT_FAMILY :: string
  TEXTBOX_DEFAULTS_fontWeight :: string

subsection \<open>The store\<close>

text \<open>
  The store holds the current state. \<open>set(partial)\<close> publishes a new state, the old one
  with the fields of \<open>partial\<close> replaced, and notifies the subscribers of it; the
  snapshots handed to the subscribers are recorded in \<open>notified\<close>, oldest first.
\<close>

record store =
  current :: scene
  notified :: "scene list"

record scenePartial =
  set_icons :: "icon list option"
  set_nodes :: "node list option"
  set_connectors :: "connector list option"
  set_textBoxes :: "textBox list option"
  set_rectangles :: "rectangle list option"

definition noFields :: scenePartial where
  "noFields = \<lparr>set_icons = None, set_nodes = None, set_connectors = None,
     set_textBoxes = None, set_rectangles = None\<rparr>"

definition allFields :: "scene \<Rightarrow> scenePartial" where
  "allFields s = \<lparr>set_icons = Some (icons s), set_nodes = Some (nodes s),
     set_connectors = Some (connectors s), set_textBoxes = Some (textBoxes s),
     set_rectangles = Some (rectangles s)\<rparr>"

definition assign :: "scene \<Rightarrow> scenePartial \<Rightarrow> scene" where
  "assign s p =
     \<lparr>icons = orElse (set_icons p) (icons s),
      nodes = orElse (set_nodes p) (nodes s),
      connectors = orElse (set_connectors p) (connectors s),
      textBoxes = orElse (set_textBoxes p) (textBoxes s),
      rectangles = orElse (set_rectangles p) (rectangles s)\<rparr>"

definition store_set :: "scenePartial \<Rightarrow> store \<Rightarrow> store" where
  "store_set p st =
     \<lparr>current = assign (current st) p,
      notified = notified st @ [assign (current st) p]\<rparr>"

definition store_get :: "store \<Rightarrow> scene" where
  "store_get st = current st"

definition initialState :: store where
  "initialState = \<lparr>current = initialScene, notified = []\<rparr>"

text \<open>
  An action whose recipe threw leaves by the exception, before its \<open>set\<close>; otherwise it
  calls \<open>set\<close> with the fields it picks from the new scene.
\<close>

definition thenSet ::
  "error + scene \<Rightarrow> (scene \<Rightarrow> scenePartial) \<Rightarrow> store \<Rightarrow> (error + unit) \<times> store" where
  "thenSet r pick st =
     (case r of
        Inl e \<Rightarrow> (Inl e, st)
      | Inr newScene \<Rightarrow> (Inr (), store_set (pick newScene) st))"

subsection \<open>The actions\<close>

definition setScene ::
  "('raw, 'ni, 'ci, 'ri, 'ti) utils \<Rightarrow> 'raw \<Rightarrow> store \<Rightarrow> (error + scene) \<times> store" where
  "setScene env scene st =
     (if \<not> sceneInput_parse env scene then (Inl ValidationError, st)
      else
        let newScene = sceneInputToScene env scene
        in (Inr newScene, store_set (allFields newScene) st))"

definition updateScene :: "scene \<Rightarrow> store \<Rightarrow> (error + unit) \<times> store" where
  "updateScene scene st =
     (Inr (), store_set (noFields\<lparr>set_nodes := Some (nodes scene),
        set_connectors := Some (connectors scene),
        set_rectangles := Some (rectangles scene)\<rparr>) st)"

definition createNode ::
  "('raw, 'ni, 'ci, 'ri, 'ti) utils \<Rightarrow> 'ni \<Rightarrow> store \<Rightarrow> (error + unit) \<times> store" where
  "createNode env node st =
     thenSet
       (produce (store_get st) (\<lambda>draftState.
          Inr (draftState\<lparr>draft_nodes :=
                 push (draft_nodes draftState) (nodeInputToNode env node)\<rparr>)))
       (\<lambda>newScene. noFields\<lparr>set_nodes := Some (nodes newScene)\<rparr>) st"

text \<open>\<open>anchor.ref.type === 'NODE' && anchor.ref.id === id\<close>\<close>

definition boundTo :: "string \<Rightarrow> anchor \<Rightarrow> bool" where
  "boundTo i anchor = (case ref anchor of NODE j \<Rightarrow> j = i | FREE _ \<Rightarrow> False)"

text \<open>
  One call of the callback of \<open>draftState.connectors.forEach((connector, i) => ...)\<close> in
  \<open>updateNode\<close>: \<open>connector\<close> is the object of slot \<open>i\<close>; the path is written to the
  object of \<open>draftState.connectors[i]\<close>; the nodes and the connectors handed to the
  collaborators are read from the draft as it is at that moment.
\<close>

definition updateNode_each ::
  "('raw, 'ni, 'ci, 'ri, 'ti) utils \<Rightarrow> string \<Rightarrow> draftState \<Rightarrow> nat \<Rightarrow> draftState" where
  "updateNode_each env i draftState n =
     (let connector = slots (draft_connectors draftState) ! n;
          needsUpdate = find (boundTo i) (anchors (readObj (draft_connectors draftState) connector))
      in if needsUpdate \<noteq> None then
           draftState\<lparr>draft_connectors :=
             writeObj (draft_connectors draftState) (slots (draft_connectors draftState) ! n)
               (\<lambda>c. c\<lparr>path :=
                  getConnectorPath env
                    (anchors (readObj (draft_connectors draftState) connector))
                    (finishDraftArray (draft_nodes draftState))
                    (getAllAnchors (finishDraftArray (draft_connectors draftState)))\<rparr>)\<rparr>
         else draftState)"

definition updateNode_recipe ::
  "('raw, 'ni, 'ci, 'ri, 'ti) utils \<Rightarrow> string \<Rightarrow> nodeUpdates \<Rightarrow> draftState \<Rightarrow> error + draftState" where
  "updateNode_recipe env i updates draftState =
     (case getItemById Node_kind node_id (draft_nodes draftState) i of
        Inl e \<Rightarrow> Inl e
      | Inr (node, index) \<Rightarrow>
          let d1 = draftState\<lparr>draft_nodes :=
                     setSlot (draft_nodes draftState) index
                       (spreadNode (readObj (draft_nodes draftState) node) updates)\<rparr>
          in Inr (fold (\<lambda>n d. updateNode_each env i d n)
                    [0..<length (slots (draft_connectors d1))] d1))"

definition updateNode ::
  "('raw, 'ni, 'ci, 'ri, 'ti) utils \<Rightarrow> string \<Rightarrow> nodeUpdates \<Rightarrow> store \<Rightarrow> (error + unit) \<times> store" where
  "updateNode env i updates st =
     thenSet (produce (store_get st) (updateNode_recipe env i updates))
       (\<lambda>newScene. noFields\<lparr>set_nodes := Some (nodes newScene),
          set_connectors := Some (connectors newScene)\<rparr>) st"

definition deleteNode_recipe :: "string \<Rightarrow> draftState \<Rightarrow> error + draftState" where
  "deleteNode_recipe i draftState =
     (case getItemById Node_kind node_id (draft_nodes draftState) i of
        Inl e \<Rightarrow> Inl e
      | Inr (node, index) \<Rightarrow>
          let d1 = draftState\<lparr>draft_nodes := splice1 (draft_nodes draftState) index\<rparr>
          in Inr (d1\<lparr>draft_connectors :=
                    filterDraft (\<lambda>connector. \<not> (find (boundTo i) (anchors connector) \<noteq> None))
                      (draft_connectors d1)\<rparr>))"

definition deleteNode :: "string \<Rightarrow> store \<Rightarrow> (error + unit) \<times> store" where
  "deleteNode i st =
     thenSet (produce (store_get st) (deleteNode_recipe i))
       (\<lambda>newScene. noFields\<lparr>set_nodes := Some (nodes newScene),
          set_connectors := Some (connectors newScene)\<rparr>) st"

definition createConnector ::
  "('raw, 'ni, 'ci, 'ri, 'ti) utils \<Rightarrow> 'ci \<Rightarrow> store \<Rightarrow> (error + unit) \<times> store" where
  "createConnector env connector st =
     thenSet
       (produce (store_get st) (\<lambda>draftState.
          Inr (draftState\<lparr>draft_connectors :=
                 push (draft_connectors draftState)
                   (connectorInputToConnector env connector
                      (finishDraftArray (draft_nodes draftState))
                      (getAllAnchors (finishDraftArray (draft_connectors draftState))))\<rparr>)))
       (\<lambda>newScene. noFields\<lparr>set_connectors := Some (connectors newScene)\<rparr>) st"

definition updateConnector_recipe :: "string \<Rightarrow> connectorUpdates \<Rightarrow> draftState \<Rightarrow> error + draftState" where
  "updateConnector_recipe i updates draftState =
     (case getItemById Connector_kind connector_id (draft_connectors draftState) i of
        Inl e \<Rightarrow> Inl e
      | Inr (connector, index) \<Rightarrow>
          Inr (draftState\<lparr>draft_connectors :=
                 setSlot (draft_connectors draftState) index
                   (spreadConnector (readObj (draft_connectors draftState) connector) updates)\<rparr>))"

definition updateConnector :: "string \<Rightarrow> connectorUpdates \<Rightarrow> store \<Rightarrow> (error + unit) \<times> store" where
  "updateConnector i updates st =
     thenSet (produce (store_get st) (updateConnector_recipe i updates))
       (\<lambda>newScene. noFields\<lparr>set_connectors := Some (connectors newScene)\<rparr>) st"

definition deleteConnector_recipe :: "string \<Rightarrow> draftState \<Rightarrow> error + draftState" where
  "deleteConnector_recipe i draftState =
     (case getItemById Connector_kind connector_id (draft_connectors draftState) i of
        Inl e \<Rightarrow> Inl e
      | Inr (connector, index) \<Rightarrow>
          Inr (draftState\<lparr>draft_connectors := splice1 (draft_connectors draftState) index\<rparr>))"

definition deleteConnector :: "string \<Rightarrow> store \<Rightarrow> (error + unit) \<times> store" where
  "deleteConnector i st =
     thenSet (produce (store_get st) (deleteConnector_recipe i))
       (\<lambda>newScene. noFields\<lparr>set_connectors := Some (connectors newScene)\<rparr>) st"

definition createRectangle ::
  "('raw, 'ni, 'ci, 'ri, 'ti) utils \<Rightarrow> 'ri \<Rightarrow> store \<Rightarrow> (error + unit) \<times> store" where
  "createRectangle env rectangle st =
     thenSet
       (produce (store_get st) (\<lambda>draftState.
          Inr (draftState\<lparr>draft_rectangles :=
                 push (draft_rectangles draftState) (rectangleInputToRectangle env rectangle)\<rparr>)))
       (\<lambda>newScene. noFields\<lparr>set_rectangles := Some (rectangles newScene)\<rparr>) st"

definition createTextBox ::
  "('raw, 'ni, 'ci, 'ri, 'ti) utils \<Rightarrow> 'ti \<Rightarrow> store \<Rightarrow> (error + unit) \<times> store" where
  "createTextBox env textBox st =
     thenSet
       (produce (store_get st) (\<lambda>draftState.
          Inr (draftState\<lparr>draft_textBoxes :=
                 push (draft_textBoxes draftState) (textBoxInputToTextBox env textBox)\<rparr>)))
       (\<lambda>newScene. noFields\<lparr>set_textBoxes := Some (textBoxes newScene)\<rparr>) st"

text \<open>
  In \<open>updateTextBox\<close> the variable \<open>textBox\<close> is the item that \<open>getItemById\<close> located:
  the size written to \<open>draftState.textBoxes[index].size\<close> is read back through
  \<open>textBox\<close> by the spread that follows, and the fields of \<open>updates\<close> come last.
\<close>

definition updateTextBox_recipe ::
  "('raw, 'ni, 'ci, 'ri, 'ti) utils \<Rightarrow> string \<Rightarrow> textBoxUpdates \<Rightarrow> draftState \<Rightarrow> error + draftState" where
  "updateTextBox_recipe env i updates draftState =
     (case getItemById TextBox_kind textBox_id (draft_textBoxes draftState) i of
        Inl e \<Rightarrow> Inl e
      | Inr (textBox, index) \<Rightarrow>
          let d1 =
                (if upd_text updates \<noteq> None \<or> upd_fontSize updates \<noteq> None then
                   draftState\<lparr>draft_textBoxes :=
                     writeObj (draft_textBoxes draftState)
                       (slots (draft_textBoxes draftState) ! index)
                       (\<lambda>t. t\<lparr>textBox_size :=
                          \<lparr>width =
                             getTextWidth env
                               (orElse (upd_text updates)
                                  (textBox_text (readObj (draft_textBoxes draftState) textBox)))
                               \<lparr>fontSize =
                                  orElse (upd_fontSize updates)
                                    (textBox_fontSize (readObj (draft_textBoxes draftState) textBox)),
                                fontFamily = DEFAULT_FONT_FAMILY env,
                                fontWeight = TEXTBOX_DEFAULTS_fontWeight env\<rparr>,
                            height = 1\<rparr>\<rparr>)\<rparr>
                 else draftState)
          in Inr (d1\<lparr>draft_textBoxes :=
                    setSlot (draft_textBoxes d1) index
                      (spreadTextBox (readObj (draft_textBoxes d1) textBox) updates)\<rparr>))"

definition updateTextBox ::
  "('raw, 'ni, 'ci, 'ri, 'ti) utils \<Rightarrow> string \<Rightarrow> textBoxUpdates \<Rightarrow> store \<Rightarrow> (error + unit) \<times> store" where
  "updateTextBox env i updates st =
     thenSet (produce (store_get st) (updateTextBox_recipe env i updates))
       (\<lambda>newScene. noFields\<lparr>set_textBoxes := Some (textBoxes newScene)\<rparr>) st"

definition deleteTextBox_recipe :: "string \<Rightarrow> draftState \<Rightarrow> error + draftState" where
  "deleteTextBox_recipe i draftState =
     (case getItemById TextBox_kind textBox_id (draft_textBoxes draftState) i of
        Inl e \<Rightarrow> Inl e
      | Inr (textBox, index) \<Rightarrow>
          Inr (draftState\<lparr>draft_textBoxes := splice1 (draft_textBoxes draftState) index\<rparr>))"

definition deleteTextBox :: "string \<Rightarrow> store \<Rightarrow> (error + unit) \<times> store" where
  "deleteTextBox i st =
     thenSet (produce (store_get st) (deleteTextBox_recipe i))
       (\<lambda>newScene. noFields\<lparr>set_textBoxes := Some (textBoxes newScene)\<rparr>) st"

definition updateRectangle_recipe :: "string \<Rightarrow> rectangleUpdates \<Rightarrow> draftState \<Rightarrow> error + draftState" where
  "updateRectangle_recipe i updates draftState =
     (case getItemById Rectangle_kind rectangle_id (draft_rectangles draftState) i of
        Inl e \<Rightarrow> Inl e
      | Inr (rectangle, index) \<Rightarrow>
          Inr (draftState\<lparr>draft_rectangles :=
                 setSlot (draft_rectangles draftState) index
                   (spreadRectangle (readObj (draft_rectangles draftState) rectangle) updates)\<rparr>))"

definition updateRectangle :: "string \<Rightarrow> rectangleUpdates \<Rightarrow> store \<Rightarrow> (error + unit) \<times> store" where
  "updateRectangle i updates st =
     thenSet (produce (store_get st) (updateRectangle_recipe i updates))
       (\<lambda>newScene. noFields\<lparr>set_rectangles := Some (rectangles newScene)\<rparr>) st"

definition deleteRectangle_recipe :: "string \<Rightarrow> draftState \<Rightarrow> error + draftState" where
  "deleteRectangle_recipe i draftState =
     (case getItemById Rectangle_kind rectangle_id (draft_rectangles draftState) i of
        Inl e \<Rightarrow> Inl e
      | Inr (rectangle, index) \<Rightarrow>
          Inr (draftState\<lparr>draft_rectangles := splice1 (draft_rectangles draftState) index\<rparr>))"

definition deleteRectangle :: "string \<Rightarrow> store \<Rightarrow> (error + unit) \<times> store" where
  "deleteRectangle i st =
     thenSet (produce (store_get st) (deleteRectangle_recipe i))
       (\<lambda>newScene. noFields\<lparr>set_rectangles := Some (rectangles newScene)\<rparr>) st"

subsection \<open>Notions used in the proofs\<close>

text \<open>
  A draft array whose slots hold pairwise different, allocated addresses: no object is
  shared between two slots. Drafts start so and every operation above keeps them so.
\<close>

definition ownSlots :: "'a draftArray \<Rightarrow> bool" where
  "ownSlots d = (distinct (slots d) \<and> list_all (\<lambda>a. a < length (heap d)) (slots d))"

text \<open>
  What one call of the \<open>forEach\<close> callback of \<open>updateNode\<close> does to a connector, given
  the nodes and the anchors it hands to \<open>getConnectorPath\<close>.
\<close>

definition reroute ::
  "('raw, 'ni, 'ci, 'ri, 'ti) utils \<Rightarrow> string \<Rightarrow> node list \<Rightarrow> anchor list \<Rightarrow> connector \<Rightarrow> connector" where
  "reroute env i ns all c =
     (if find (boundTo i) (anchors c) \<noteq> None
      then c\<lparr>path := getConnectorPath env (anchors c) ns all\<rparr> else c)"

text \<open>The size that \<open>updateTextBox\<close> writes when \<open>updates\<close> has a text or a font size.\<close>

definition measured ::
  "('raw, 'ni, 'ci, 'ri, 'ti) utils \<Rightarrow> textBox \<Rightarrow> textBoxUpdates \<Rightarrow> dimensions" where
  "measured env t u =
     \<lparr>width = getTextWidth env (orElse (upd_text u) (textBox_text t))
        \<lparr>fontSize = orElse (upd_fontSize u) (textBox_fontSize t),
         fontFamily = DEFAULT_FONT_FAMILY env,
         fontWeight = TEXTBOX_DEFAULTS_fontWeight env\<rparr>,
      height = 1\<rparr>"

subsection \<open>Properties of scenes\<close>

text \<open>No two entities of a sequence share an id.\<close>

definition uniqueIds :: "scene \<Rightarrow> bool" where
  "uniqueIds s =
     (distinct (map icon_id (icons s)) \<and>
      distinct (map node_id (nodes s)) \<and>
      distinct (map connector_id (connectors s)) \<and>
      distinct (map textBox_id (textBoxes s)) \<and>
      distinct (map rectangle_id (rectangles s)))"

text \<open>Every anchor that is bound to a node is bound to a node of the scene.\<close>

definition resolved :: "node list \<Rightarrow> anchor \<Rightarrow> bool" where
  "resolved ns a = (case ref a of NODE j \<Rightarrow> j \<in> set (map node_id ns) | FREE _ \<Rightarrow> True)"

definition noDanglingAnchor :: "scene \<Rightarrow> bool" where
  "noDanglingAnchor s = list_all (\<lambda>c. list_all (resolved (nodes s)) (anchors c)) (connectors s)"

subsection \<open>Sequences of actions\<close>

datatype ('raw, 'ni, 'ci, 'ri, 'ti) action =
    SetScene 'raw
  | UpdateScene scene
  | CreateNode 'ni
  | UpdateNode string nodeUpdates
  | DeleteNode string
  | CreateConnector 'ci
  | UpdateConnector string connectorUpdates
  | DeleteConnector string
  | CreateRectangle 'ri
  | CreateTextBox 'ti
  | UpdateTextBox string textBoxUpdates
  | DeleteTextBox string
  | UpdateRectangle string rectangleUpdates
  | DeleteRectangle string

text \<open>The store after a call of an action, whether the call returned or threw.\<close>

fun perform ::
  "('raw, 'ni, 'ci, 'ri, 'ti) utils \<Rightarrow> ('raw, 'ni, 'ci, 'ri, 'ti) action \<Rightarrow> store \<Rightarrow> store" where
  "perform env (SetScene raw) st = snd (setScene env raw st)"
| "perform env (UpdateScene scene) st = snd (updateScene scene st)"
| "perform env (CreateNode node) st = snd (createNode env node st)"
| "perform env (UpdateNode i updates) st = snd (updateNode env i updates st)"
| "perform env (DeleteNode i) st = snd (deleteNode i st)"
| "perform env (CreateConnector connector) st = snd (createConnector env connector st)"
| "perform env (UpdateConnector i updates) st = snd (updateConnector i updates st)"
| "perform env (DeleteConnector i) st = snd (deleteConnector i st)"
| "perform env (CreateRectangle rectangle) st = snd (createRectangle env rectangle st)"
| "perform env (CreateTextBox textBox) st = snd (createTextBox env textBox st)"
| "perform env (UpdateTextBox i updates) st = snd (updateTextBox env i updates st)"
| "perform env (DeleteTextBox i) st = snd (deleteTextBox i st)"
| "perform env (UpdateRectangle i updates) st = snd (updateRectangle i updates st)"
| "perform env (DeleteRectangle i) st = snd (deleteRectangle i st)"

fun run ::
  "('raw, 'ni, 'ci, 'ri, 'ti) utils \<Rightarrow> ('raw, 'ni, 'ci, 'ri, 'ti) action list \<Rightarrow> store \<Rightarrow> store" where
  "run env [] st = st"
| "run env (a # as) st = run env as (perform env a st)"

text \<open>
  The calls that cannot bring a repeated id into a scene \<open>s\<close>: a create action whose
  normalised entity has an id that its sequence does not have yet; an update action whose
  \<open>updates\<close> have no id, the id of the call, or an id that the sequence does not have;
  an \<open>updateScene\<close> whose three sequences have no repeated id; a \<open>setScene\<close> whose
  input, when it passes the schema, normalises to a scene with no repeated id; any delete
  action.
\<close>

definition freshOrSame :: "string option \<Rightarrow> string \<Rightarrow> string list \<Rightarrow> bool" where
  "freshOrSame u i ids = (case u of None \<Rightarrow> True | Some j \<Rightarrow> j = i \<or> j \<notin> set ids)"

fun keepsIdsApart ::
  "('raw, 'ni, 'ci, 'ri, 'ti) utils \<Rightarrow> scene \<Rightarrow> ('raw, 'ni, 'ci, 'ri, 'ti) action \<Rightarrow> bool" where
  "keepsIdsApart env s (SetScene raw) =
     (if sceneInput_parse env raw then uniqueIds (sceneInputToScene env raw) else True)"
| "keepsIdsApart env s (UpdateScene scene) =
     (distinct (map node_id (nodes scene)) \<and>
      distinct (map connector_id (connectors scene)) \<and>
      distinct (map rectangle_id (rectangles scene)))"
| "keepsIdsApart env s (CreateNode node) =
     (node_id (nodeInputToNode env node) \<notin> set (map node_id (nodes s)))"
| "keepsIdsApart env s (UpdateNode i updates) =
     freshOrSame (upd_node_id updates) i (map node_id (nodes s))"
| "keepsIdsApart env s (DeleteNode i) = True"
| "keepsIdsApart env s (CreateConnector connector) =
     (connector_id (connectorInputToConnector env connector (nodes s)
        (getAllAnchors (connectors s))) \<notin> set (map connector_id (connectors s)))"
| "keepsIdsApart env s (UpdateConnector i updates) =
     freshOrSame (upd_connector_id updates) i (map connector_id (connectors s))"
| "keepsIdsApart env s (DeleteConnector i) = True"
| "keepsIdsApart env s (CreateRectangle rectangle) =
     (rectangle_id (rectangleInputToRectangle env rectangle) \<notin> set (map rectangle_id (rectangles s)))"
| "keepsIdsApart env s (CreateTextBox textBox) =
     (textBox_id (textBoxInputToTextBox env textBox) \<notin> set (map textBox_id (textBoxes s)))"
| "keepsIdsApart env s (UpdateTextBox i updates) =
     freshOrSame (upd_textBox_id updates) i (map textBox_id (textBoxes s))"
| "keepsIdsApart env s (DeleteTextBox i) = True"
| "keepsIdsApart env s (UpdateRectangle i updates) =
     freshOrSame (upd_rectangle_id updates) i (map rectangle_id (rectangles s))"
| "keepsIdsApart env s (DeleteRectangle i) = True"

fun allKeepIdsApart ::
  "('raw, 'ni, 'ci, 'ri, 'ti) utils \<Rightarrow> ('raw, 'ni, 'ci, 'ri, 'ti) action list \<Rightarrow> store \<Rightarrow> bool" where
  "allKeepIdsApart env [] st = True"
| "allKeepIdsApart env (a # as) st =
     (keepsIdsApart env (current st) a \<and> allKeepIdsApart env as (perform env a st))"

subsection \<open>A concrete scene and concrete collaborators\<close>

text \<open>
  Collaborators to run the actions with: inputs are entities already, the schema accepts
  the scenes without repeated ids, a path lists the free coordinates of the anchors, and
  a text is as wide as its length times the font size.
\<close>

fun examplePath :: "anchor list \<Rightarrow> node list \<Rightarrow> anchor list \<Rightarrow> path" where
  "examplePath [] ns all = []"
| "examplePath (a # as) ns all =
     (case ref a of
        NODE j \<Rightarrow> (case find (\<lambda>n. node_id n = j) ns of
                     None \<Rightarrow> examplePath as ns all
                   | Some n \<Rightarrow> node_position n # examplePath as ns all)
      | FREE c \<Rightarrow> c # examplePath as ns all)"

definition exampleUtils :: "(scene, node, connector, rectangle, textBox) utils" where
  "exampleUtils =
     \<lparr>sceneInput_parse = uniqueIds,
      sceneInputToScene = (\<lambda>raw. raw),
      nodeInputToNode = (\<lambda>n. n),
      connectorInputToConnector = (\<lambda>c ns all. c\<lparr>path := examplePath (anchors c) ns all\<rparr>),
      rectangleInputToRectangle = (\<lambda>r. r),
      textBoxInputToTextBox = (\<lambda>t. t),
      getConnectorPath = examplePath,
      getTextWidth = (\<lambda>t style. real (length t) * fontSize style),
      DEFAULT_FONT_FAMILY = ''Roboto'',
      TEXTBOX_DEFAULTS_fontWeight = ''bold''\<rparr>"

definition unitSize :: dimensions where
  "unitSize = \<lparr>width = 1, height = 1\<rparr>"

definition nodeA :: node where
  "nodeA = \<lparr>node_id = ''a'', node_position = (0, 0), node_size = unitSize\<rparr>"

definition nodeB :: node where
  "nodeB = \<lparr>node_id = ''b'', node_position = (4, 2), node_size = unitSize\<rparr>"

definition connectorAB :: connector where
  "connectorAB = \<lparr>connector_id = ''ab'',
     anchors = [\<lparr>ref = NODE ''a''\<rparr>, \<lparr>ref = NODE ''b''\<rparr>], path = [(0, 0), (4, 2)]\<rparr>"

definition connectorB :: connector where
  "connectorB = \<lparr>connector_id = ''b1'',
     anchors = [\<lparr>ref = NODE ''b''\<rparr>, \<lparr>ref = FREE (7, 7)\<rparr>], path = [(4, 2), (7, 7)]\<rparr>"

definition textBoxT :: textBox where
  "textBoxT = \<lparr>textBox_id = ''t'', textBox_position = (1, 1), textBox_text = ''Text'',
     textBox_fontSize = 2, textBox_size = \<lparr>width = 8, height = 1\<rparr>\<rparr>"

definition rectangleR :: rectangle where
  "rectangleR = \<lparr>rectangle_id = ''r'', rectangle_position = (0, 0), rectangle_size = unitSize\<rparr>"

definition exampleScene :: scene where
  "exampleScene = \<lparr>icons = [], nodes = [nodeA, nodeB], connectors = [connectorAB, connectorB],
     textBoxes = [textBoxT], rectangles = [rectangleR]\<rparr>"

definition exampleStore :: store where
  "exampleStore = \<lparr>current = exampleScene, notified = [exampleScene]\<rparr>"

text \<open>Updates without a field, the \<open>{}\<close> of a call such as \<open>updateConnector(id, {})\<close>.\<close>

definition emptyNodeUpdates :: nodeUpdates where
  "emptyNodeUpdates = \<lparr>upd_node_id = None, upd_node_position = None, upd_node_size = None\<rparr>"

definition emptyConnectorUpdates :: connectorUpdates where
  "emptyConnectorUpdates = \<lparr>upd_connector_id = None, upd_anchors = None, upd_path = None\<rparr>"

definition emptyTextBoxUpdates :: textBoxUpdates where
  "emptyTextBoxUpdates = \<lparr>upd_textBox_id = None, upd_textBox_position = None, upd_text = None,
     upd_fontSize = None, upd_size = None\<rparr>"

definition emptyRectangleUpdates :: rectangleUpdates where
  "emptyRectangleUpdates = \<lparr>upd_rectangle_id = None, upd_rectangle_position = None,
     upd_rectangle_size = None\<rparr>"

text \<open>Updates to run the update actions with.\<close>

definition moveNodeB :: nodeUpdates where
  "moveNodeB = emptyNodeUpdates\<lparr>upd_node_position := Some (9, 9)\<rparr>"

definition sayHello :: textBoxUpdates where
  "sayHello = emptyTextBoxUpdates\<lparr>upd_text := Some ''Hello''\<rparr>"

definition sayHelloSized :: textBoxUpdates where
  "sayHelloSized = emptyTextBoxUpdates\<lparr>upd_text := Some ''Hello'',
     upd_size := Some \<lparr>width = 3, height = 4\<rparr>\<rparr>"

section \<open>Drafts and plain lists\<close>


lemma ownSlots_create: "ownSlots (createDraftArray xs)"
  by (simp add: ownSlots_def createDraftArray_def list_all_iff)

lemma finish_create: "finishDraftArray (createDraftArray xs) = xs"
  by (simp add: finishDraftArray_def createDraftArray_def readObj_def [abs_def] map_nth)

lemma slots_create: "slots (createDraftArray xs) = [0..<length xs]"
  by (simp add: createDraftArray_def)

lemma readObj_create: "readObj (createDraftArray xs) a = xs ! a"
  by (simp add: createDraftArray_def readObj_def)

lemma length_finish: "length (finishDraftArray d) = length (slots d)"
  by (simp add: finishDraftArray_def)

lemma nth_finish: "n < length (slots d) \<Longrightarrow> finishDraftArray d ! n = readObj d (slots d ! n)"
  by (simp add: finishDraftArray_def)

lemma finish_writeObj:
  assumes "ownSlots d" and "n < length (slots d)"
  shows "finishDraftArray (writeObj d (slots d ! n) f) =
         (finishDraftArray d)[n := f (finishDraftArray d ! n)]"
proof (rule nth_equalityI)
  show "length (finishDraftArray (writeObj d (slots d ! n) f)) =
        length ((finishDraftArray d)[n := f (finishDraftArray d ! n)])"
    by (simp add: finishDraftArray_def writeObj_def)
next
  fix m
  assume "m < length (finishDraftArray (writeObj d (slots d ! n) f))"
  then have m: "m < length (slots d)"
    by (simp add: finishDraftArray_def writeObj_def)
  have inj: "slots d ! n = slots d ! m \<longleftrightarrow> n = m"
    using assms m by (simp add: ownSlots_def nth_eq_iff_index_eq)
  have bound: "slots d ! n < length (heap d)"
    using assms by (simp add: ownSlots_def list_all_length)
  show "finishDraftArray (writeObj d (slots d ! n) f) ! m =
        (finishDraftArray d)[n := f (finishDraftArray d ! n)] ! m"
    using m assms(2) inj bound
    by (auto simp: finishDraftArray_def writeObj_def readObj_def nth_list_update)
qed

lemma ownSlots_writeObj: "ownSlots d \<Longrightarrow> ownSlots (writeObj d a f)"
  by (simp add: ownSlots_def writeObj_def)

lemma slots_writeObj: "slots (writeObj d a f) = slots d"
  by (simp add: writeObj_def)

lemma finish_setSlot:
  assumes "ownSlots d"
  shows "finishDraftArray (setSlot d n v) = (finishDraftArray d)[n := v]"
proof (rule nth_equalityI)
  show "length (finishDraftArray (setSlot d n v)) = length ((finishDraftArray d)[n := v])"
    by (simp add: finishDraftArray_def setSlot_def)
next
  fix m
  assume "m < length (finishDraftArray (setSlot d n v))"
  then have m: "m < length (slots d)"
    by (simp add: finishDraftArray_def setSlot_def)
  have bound: "slots d ! m < length (heap d)"
    using assms m by (simp add: ownSlots_def list_all_length)
  show "finishDraftArray (setSlot d n v) ! m = (finishDraftArray d)[n := v] ! m"
    using m bound
    by (cases "m = n") (simp_all add: finishDraftArray_def setSlot_def readObj_def nth_append)
qed

lemma finish_push:
  assumes "ownSlots d"
  shows "finishDraftArray (push d v) = finishDraftArray d @ [v]"
proof -
  have "map ((!) (heap d @ [v])) (slots d) = map ((!) (heap d)) (slots d)"
    using assms by (auto simp: ownSlots_def list_all_iff nth_append)
  then show ?thesis
    by (simp add: finishDraftArray_def push_def readObj_def [abs_def])
qed

lemma finish_splice1:
  "finishDraftArray (splice1 d n) = take n (finishDraftArray d) @ drop (Suc n) (finishDraftArray d)"
  by (simp add: finishDraftArray_def splice1_def readObj_def [abs_def] take_map drop_map)

lemma finish_filterDraft:
  "finishDraftArray (filterDraft p d) = filter p (finishDraftArray d)"
  by (simp add: finishDraftArray_def filterDraft_def readObj_def [abs_def] filter_map comp_def)

lemma findIndex_map: "findIndex (\<lambda>a. P (f a)) xs = findIndex P (map f xs)"
  by (induction xs) simp_all

lemma findIndex_None: "findIndex P xs = None \<longleftrightarrow> (\<forall>x \<in> set xs. \<not> P x)"
  by (induction xs) simp_all

lemma findIndex_Some:
  "findIndex P xs = Some n \<Longrightarrow> n < length xs \<and> P (xs ! n) \<and> (\<forall>m < n. \<not> P (xs ! m))"
proof (induction xs arbitrary: n)
  case Nil
  then show ?case by simp
next
  case (Cons x xs)
  show ?case
  proof (cases "P x")
    case True
    with Cons.prems show ?thesis by simp
  next
    case False
    with Cons.prems obtain k where k: "findIndex P xs = Some k" "n = Suc k"
      by auto
    from Cons.IH [OF k(1)] False k(2) show ?thesis
      by (auto simp: nth_Cons split: nat.splits)
  qed
qed

lemma getItemById_draft:
  "getItemById k idOf d i =
     (case findIndex (\<lambda>x. idOf x = i) (finishDraftArray d) of
        None \<Rightarrow> Inl (NotFound k i)
      | Some n \<Rightarrow> Inr (slots d ! n, n))"
  by (simp add: getItemById_def finishDraftArray_def findIndex_map [of "\<lambda>x. idOf x = i" "readObj d"])


lemma findIndex_slot:
  "findIndex P (finishDraftArray (createDraftArray xs)) = Some n \<Longrightarrow>
   slots (createDraftArray xs) ! n = n \<and> n < length xs"
  by (auto simp: finish_create slots_create dest: findIndex_Some)

lemma produce_updateConnector:
  "produce s (updateConnector_recipe i u) =
     (case findIndex (\<lambda>c. connector_id c = i) (connectors s) of
        None \<Rightarrow> Inl (NotFound Connector_kind i)
      | Some n \<Rightarrow> Inr (s\<lparr>connectors := (connectors s)[n := spreadConnector (connectors s ! n) u]\<rparr>))"
  by (auto simp: produce_def updateConnector_recipe_def getItemById_draft createDraft_def
      finishDraft_def finish_setSlot ownSlots_create finish_create readObj_create slots_create
      split: option.splits dest: findIndex_Some)

lemma produce_updateRectangle:
  "produce s (updateRectangle_recipe i u) =
     (case findIndex (\<lambda>r. rectangle_id r = i) (rectangles s) of
        None \<Rightarrow> Inl (NotFound Rectangle_kind i)
      | Some n \<Rightarrow> Inr (s\<lparr>rectangles := (rectangles s)[n := spreadRectangle (rectangles s ! n) u]\<rparr>))"
  by (auto simp: produce_def updateRectangle_recipe_def getItemById_draft createDraft_def
      finishDraft_def finish_setSlot ownSlots_create finish_create readObj_create slots_create
      split: option.splits dest: findIndex_Some)

lemma produce_deleteConnector:
  "produce s (deleteConnector_recipe i) =
     (case findIndex (\<lambda>c. connector_id c = i) (connectors s) of
        None \<Rightarrow> Inl (NotFound Connector_kind i)
      | Some n \<Rightarrow> Inr (s\<lparr>connectors := take n (connectors s) @ drop (Suc n) (connectors s)\<rparr>))"
  by (auto simp: produce_def deleteConnector_recipe_def getItemById_draft createDraft_def
      finishDraft_def finish_splice1 finish_create split: option.splits)

lemma produce_deleteRectangle:
  "produce s (deleteRectangle_recipe i) =
     (case findIndex (\<lambda>r. rectangle_id r = i) (rectangles s) of
        None \<Rightarrow> Inl (NotFound Rectangle_kind i)
      | Some n \<Rightarrow> Inr (s\<lparr>rectangles := take n (rectangles s) @ drop (Suc n) (rectangles s)\<rparr>))"
  by (auto simp: produce_def deleteRectangle_recipe_def getItemById_draft createDraft_def
      finishDraft_def finish_splice1 finish_create split: option.splits)

lemma produce_deleteTextBox:
  "produce s (deleteTextBox_recipe i) =
     (case findIndex (\<lambda>t. textBox_id t = i) (textBoxes s) of
        None \<Rightarrow> Inl (NotFound TextBox_kind i)
      | Some n \<Rightarrow> Inr (s\<lparr>textBoxes := take n (textBoxes s) @ drop (Suc n) (textBoxes s)\<rparr>))"
  by (auto simp: produce_def deleteTextBox_recipe_def getItemById_draft createDraft_def
      finishDraft_def finish_splice1 finish_create split: option.splits)

lemma produce_deleteNode:
  "produce s (deleteNode_recipe i) =
     (case findIndex (\<lambda>n. node_id n = i) (nodes s) of
        None \<Rightarrow> Inl (NotFound Node_kind i)
      | Some n \<Rightarrow>
          Inr (s\<lparr>nodes := take n (nodes s) @ drop (Suc n) (nodes s),
                 connectors := filter (\<lambda>c. find (boundTo i) (anchors c) = None) (connectors s)\<rparr>))"
  by (auto simp: produce_def deleteNode_recipe_def getItemById_draft createDraft_def
      finishDraft_def finish_splice1 finish_filterDraft finish_create split: option.splits)

lemma produce_updateTextBox:
  "produce s (updateTextBox_recipe env i u) =
     (case findIndex (\<lambda>t. textBox_id t = i) (textBoxes s) of
        None \<Rightarrow> Inl (NotFound TextBox_kind i)
      | Some n \<Rightarrow>
          Inr (s\<lparr>textBoxes := (textBoxes s)[n :=
                 spreadTextBox
                   (if upd_text u \<noteq> None \<or> upd_fontSize u \<noteq> None
                    then (textBoxes s ! n)\<lparr>textBox_size := measured env (textBoxes s ! n) u\<rparr>
                    else textBoxes s ! n) u]\<rparr>))"
proof (cases "findIndex (\<lambda>t. textBox_id t = i) (textBoxes s)")
  case None
  then show ?thesis
    by (simp add: produce_def updateTextBox_recipe_def getItemById_draft createDraft_def
        finish_create)
next
  case (Some n)
  then have n: "n < length (textBoxes s)"
    by (auto dest: findIndex_Some)
  let ?d = "createDraftArray (textBoxes s)"
  let ?f = "\<lambda>t. t\<lparr>textBox_size := measured env (textBoxes s ! n) u\<rparr>"
  have slot: "slots ?d ! n = n"
    using n by (simp add: slots_create)
  have read: "readObj (writeObj ?d n ?f) n = ?f (textBoxes s ! n)"
    using n by (simp add: readObj_def writeObj_def createDraftArray_def)
  have fin: "finishDraftArray (writeObj ?d n ?f) = (textBoxes s)[n := ?f (textBoxes s ! n)]"
    using finish_writeObj [OF ownSlots_create, of n "textBoxes s" ?f] n
    by (simp add: slots_create finish_create)
  show ?thesis
    using Some n slot read fin
    by (simp add: produce_def updateTextBox_recipe_def getItemById_draft createDraft_def
        finishDraft_def finish_setSlot ownSlots_create ownSlots_writeObj finish_create
        readObj_create measured_def Let_def)
qed


lemma anchors_reroute: "anchors (reroute env i ns all c) = anchors c"
  by (simp add: reroute_def)

lemma getAllAnchors_reroute:
  "getAllAnchors (map (reroute env i ns all) xs @ ys) = getAllAnchors (xs @ ys)"
  by (simp add: getAllAnchors_def anchors_reroute comp_def)

lemma reroute_step:
  assumes "k < length cs"
  shows "(map f (take k cs) @ drop k cs)[k := f (cs ! k)] =
         map f (take (Suc k) cs) @ drop (Suc k) cs"
proof -
  have "drop k cs = cs ! k # drop (Suc k) cs"
    using assms by (simp add: Cons_nth_drop_Suc)
  then show ?thesis
    using assms by (simp add: list_update_append take_Suc_conv_app_nth)
qed

lemma updateNode_each_step:
  assumes own: "ownSlots X"
    and fin: "finishDraftArray X = map (reroute env i (finishDraftArray (draft_nodes d)) (getAllAnchors cs)) (take k cs) @ drop k cs"
    and k: "k < length cs"
  shows "\<exists>Y. updateNode_each env i (d\<lparr>draft_connectors := X\<rparr>) k = d\<lparr>draft_connectors := Y\<rparr> \<and>
           ownSlots Y \<and>
           finishDraftArray Y =
             map (reroute env i (finishDraftArray (draft_nodes d)) (getAllAnchors cs)) (take (Suc k) cs)
               @ drop (Suc k) cs"
proof -
  let ?ns = "finishDraftArray (draft_nodes d)"
  let ?r = "reroute env i ?ns (getAllAnchors cs)"
  have len: "length (slots X) = length cs"
    using arg_cong [OF fin, of length] k by (simp add: length_finish)
  have kX: "k < length (slots X)"
    using len k by simp
  have rd: "readObj X (slots X ! k) = cs ! k"
    using nth_finish [OF kX] fin k by (simp add: nth_append)
  have all: "getAllAnchors (finishDraftArray X) = getAllAnchors cs"
    by (simp add: fin getAllAnchors_reroute)
  show ?thesis
  proof (cases "find (boundTo i) (anchors (cs ! k)) \<noteq> None")
    case False
    then have "updateNode_each env i (d\<lparr>draft_connectors := X\<rparr>) k = d\<lparr>draft_connectors := X\<rparr>"
      by (simp add: updateNode_each_def rd)
    moreover have "?r (cs ! k) = cs ! k"
      using False by (simp add: reroute_def)
    then have "finishDraftArray X = map ?r (take (Suc k) cs) @ drop (Suc k) cs"
      using reroute_step [OF k, of ?r] fin k
      by (metis list_update_id nth_append_length length_map length_take min.absorb2 less_imp_le
          Cons_nth_drop_Suc)
    ultimately show ?thesis
      using own by blast
  next
    case True
    let ?g = "\<lambda>c. c\<lparr>path := getConnectorPath env (anchors (cs ! k)) ?ns (getAllAnchors cs)\<rparr>"
    let ?Y = "writeObj X (slots X ! k) ?g"
    have step: "updateNode_each env i (d\<lparr>draft_connectors := X\<rparr>) k = d\<lparr>draft_connectors := ?Y\<rparr>"
      using True by (simp add: updateNode_each_def rd all)
    have "finishDraftArray ?Y = (finishDraftArray X)[k := ?g (finishDraftArray X ! k)]"
      by (rule finish_writeObj [OF own kX])
    moreover have "finishDraftArray X ! k = cs ! k"
      using fin k by (simp add: nth_append)
    moreover have "?g (cs ! k) = ?r (cs ! k)"
      using True by (simp add: reroute_def)
    ultimately have "finishDraftArray ?Y = map ?r (take (Suc k) cs) @ drop (Suc k) cs"
      using reroute_step [OF k, of ?r] fin by simp
    with step own show ?thesis
      using ownSlots_writeObj by blast
  qed
qed

lemma updateNode_forEach:
  assumes own: "ownSlots (draft_connectors d)"
    and k: "k \<le> length (finishDraftArray (draft_connectors d))"
  shows "\<exists>Y. fold (\<lambda>n d. updateNode_each env i d n) [0..<k] d = d\<lparr>draft_connectors := Y\<rparr> \<and>
           ownSlots Y \<and>
           finishDraftArray Y =
             map (reroute env i (finishDraftArray (draft_nodes d))
                    (getAllAnchors (finishDraftArray (draft_connectors d))))
               (take k (finishDraftArray (draft_connectors d)))
               @ drop k (finishDraftArray (draft_connectors d))"
  using k
proof (induction k)
  case 0
  have "d = d\<lparr>draft_connectors := draft_connectors d\<rparr>"
    by simp
  with own show ?case
    by (metis append_Nil drop0 fold_simps(1) list.simps(8) take0 upt_0)
next
  case (Suc k)
  then obtain X where X: "fold (\<lambda>n d. updateNode_each env i d n) [0..<k] d = d\<lparr>draft_connectors := X\<rparr>"
      "ownSlots X"
      "finishDraftArray X =
         map (reroute env i (finishDraftArray (draft_nodes d))
                (getAllAnchors (finishDraftArray (draft_connectors d))))
           (take k (finishDraftArray (draft_connectors d)))
           @ drop k (finishDraftArray (draft_connectors d))"
    by auto
  have "k < length (finishDraftArray (draft_connectors d))"
    using Suc.prems by simp
  from updateNode_each_step [OF X(2) X(3) this]
  show ?case
    by (simp add: X(1))
qed


lemma produce_updateNode:
  "produce s (updateNode_recipe env i u) =
     (case findIndex (\<lambda>n. node_id n = i) (nodes s) of
        None \<Rightarrow> Inl (NotFound Node_kind i)
      | Some n \<Rightarrow>
          Inr (s\<lparr>nodes := (nodes s)[n := spreadNode (nodes s ! n) u],
                 connectors :=
                   map (reroute env i ((nodes s)[n := spreadNode (nodes s ! n) u])
                          (getAllAnchors (connectors s)))
                     (connectors s)\<rparr>))"
proof (cases "findIndex (\<lambda>n. node_id n = i) (nodes s)")
  case None
  then show ?thesis
    by (simp add: produce_def updateNode_recipe_def getItemById_draft createDraft_def
        finish_create)
next
  case (Some n)
  then have n: "n < length (nodes s)"
    by (auto dest: findIndex_Some)
  let ?ns = "(nodes s)[n := spreadNode (nodes s ! n) u]"
  let ?d1 = "(createDraft s)\<lparr>draft_nodes :=
               setSlot (createDraftArray (nodes s)) n (spreadNode (nodes s ! n) u)\<rparr>"
  have nodes1: "finishDraftArray (draft_nodes ?d1) = ?ns"
    by (simp add: finish_setSlot ownSlots_create finish_create)
  have conns1: "draft_connectors ?d1 = createDraftArray (connectors s)"
    by (simp add: createDraft_def)
  have recipe: "updateNode_recipe env i u (createDraft s) =
      Inr (fold (\<lambda>n d. updateNode_each env i d n) [0..<length (connectors s)] ?d1)"
    using Some n
    by (simp add: updateNode_recipe_def getItemById_draft createDraft_def finish_create
        readObj_create slots_create)
  obtain Y where Y:
      "fold (\<lambda>n d. updateNode_each env i d n) [0..<length (connectors s)] ?d1
         = ?d1\<lparr>draft_connectors := Y\<rparr>"
      "finishDraftArray Y =
         map (reroute env i ?ns (getAllAnchors (connectors s))) (connectors s)"
    using updateNode_forEach [of ?d1 "length (connectors s)" env i]
    unfolding nodes1 conns1
    by (auto simp: ownSlots_create finish_create)
  have "produce s (updateNode_recipe env i u) = Inr (finishDraft (?d1\<lparr>draft_connectors := Y\<rparr>))"
    by (simp add: produce_def recipe Y(1))
  also have "finishDraft (?d1\<lparr>draft_connectors := Y\<rparr>) =
      s\<lparr>nodes := ?ns, connectors := map (reroute env i ?ns (getAllAnchors (connectors s))) (connectors s)\<rparr>"
    by (simp add: finishDraft_def createDraft_def Y(2) finish_create finish_setSlot ownSlots_create)
  finally show ?thesis
    using Some by simp
qed

lemma produce_createNode:
  "produce s (\<lambda>draftState. Inr (draftState\<lparr>draft_nodes := push (draft_nodes draftState) v\<rparr>))
     = Inr (s\<lparr>nodes := nodes s @ [v]\<rparr>)"
  by (simp add: produce_def createDraft_def finishDraft_def finish_push ownSlots_create finish_create)

lemma produce_createRectangle:
  "produce s (\<lambda>draftState. Inr (draftState\<lparr>draft_rectangles := push (draft_rectangles draftState) v\<rparr>))
     = Inr (s\<lparr>rectangles := rectangles s @ [v]\<rparr>)"
  by (simp add: produce_def createDraft_def finishDraft_def finish_push ownSlots_create finish_create)

lemma produce_createTextBox:
  "produce s (\<lambda>draftState. Inr (draftState\<lparr>draft_textBoxes := push (draft_textBoxes draftState) v\<rparr>))
     = Inr (s\<lparr>textBoxes := textBoxes s @ [v]\<rparr>)"
  by (simp add: produce_def createDraft_def finishDraft_def finish_push ownSlots_create finish_create)

lemma produce_createConnector:
  "produce s (\<lambda>draftState. Inr (draftState\<lparr>draft_connectors :=
       push (draft_connectors draftState)
         (f (finishDraftArray (draft_nodes draftState))
            (getAllAnchors (finishDraftArray (draft_connectors draftState))))\<rparr>))
     = Inr (s\<lparr>connectors := connectors s @ [f (nodes s) (getAllAnchors (connectors s))]\<rparr>)"
  by (simp add: produce_def createDraft_def finishDraft_def finish_push ownSlots_create finish_create)

section \<open>Looking an id up\<close>

lemma findIndex_absent: "i \<notin> f ` set xs \<Longrightarrow> findIndex (\<lambda>x. f x = i) xs = None"
  by (auto simp: findIndex_None)

lemma findIndex_present:
  assumes "i \<in> f ` set xs"
  shows "\<exists>n. findIndex (\<lambda>x. f x = i) xs = Some n"
proof (cases "findIndex (\<lambda>x. f x = i) xs")
  case None
  with assms show ?thesis
    by (auto simp: findIndex_None)
next
  case (Some n)
  then show ?thesis by blast
qed

lemmas example_defs = exampleStore_def exampleScene_def nodeA_def nodeB_def connectorAB_def
  connectorB_def textBoxT_def rectangleR_def unitSize_def

section \<open>Replacing the scene, and ids that are not there\<close>

subsection \<open>updateScene\<close>

text \<open>
  C9: \<open>updateScene\<close> always returns, and the scene it publishes has the caller's nodes,
  connectors and rectangles and the text boxes and icons of the scene before.
\<close>

theorem updateScene_replaces_three_sequences:
  "fst (updateScene scene st) = Inr () \<and>
   nodes (current (snd (updateScene scene st))) = nodes scene \<and>
   connectors (current (snd (updateScene scene st))) = connectors scene \<and>
   rectangles (current (snd (updateScene scene st))) = rectangles scene \<and>
   textBoxes (current (snd (updateScene scene st))) = textBoxes (current st) \<and>
   icons (current (snd (updateScene scene st))) = icons (current st)"
  by (simp add: updateScene_def store_set_def assign_def noFields_def orElse_def)

subsection \<open>setScene\<close>

text \<open>
  C4: when the input does not pass the schema, \<open>setScene\<close> fails with
  \<open>ValidationError\<close> and the store is as before (same scene, nobody notified); when it
  passes, \<open>setScene\<close> returns the normalised scene, and the published scene is that scene,
  all five sequences, with nothing of the scene before.
\<close>

theorem setScene_validates_then_replaces:
  "(\<not> sceneInput_parse env raw \<longrightarrow> setScene env raw st = (Inl ValidationError, st)) \<and>
   (sceneInput_parse env raw \<longrightarrow>
      fst (setScene env raw st) = Inr (sceneInputToScene env raw) \<and>
      current (snd (setScene env raw st)) = sceneInputToScene env raw \<and>
      notified (snd (setScene env raw st)) = notified st @ [sceneInputToScene env raw])"
  by (simp add: setScene_def store_set_def assign_def allFields_def orElse_def Let_def)

theorem setScene_validates_then_replaces_witness:
  "\<not> sceneInput_parse exampleUtils (exampleScene\<lparr>nodes := [nodeA, nodeA]\<rparr>) \<and>
   setScene exampleUtils (exampleScene\<lparr>nodes := [nodeA, nodeA]\<rparr>) initialState
     = (Inl ValidationError, initialState) \<and>
   sceneInput_parse exampleUtils exampleScene \<and>
   current (snd (setScene exampleUtils exampleScene initialState)) = exampleScene"
proof -
  have bad: "\<not> sceneInput_parse exampleUtils (exampleScene\<lparr>nodes := [nodeA, nodeA]\<rparr>)"
    by (simp add: exampleUtils_def uniqueIds_def example_defs)
  have good: "sceneInput_parse exampleUtils exampleScene"
    by (simp add: exampleUtils_def uniqueIds_def example_defs)
  have norm: "sceneInputToScene exampleUtils exampleScene = exampleScene"
    by (simp add: exampleUtils_def)
  show ?thesis
    using bad good norm
      setScene_validates_then_replaces [of exampleUtils "exampleScene\<lparr>nodes := [nodeA, nodeA]\<rparr>" initialState]
      setScene_validates_then_replaces [of exampleUtils exampleScene initialState]
    by simp
qed

subsection \<open>Actions on an id that is not there\<close>

text \<open>
  C3: each of the eight actions that address an entity by id, called with an id that no
  entity of its sequence has, fails with \<open>NotFound\<close> of the kind and the id, and the store
  after the call is the store before it: the same scene, and no snapshot handed to the
  subscribers.
\<close>

theorem absent_id_fails_without_publishing:
  "(i \<notin> node_id ` set (nodes (current st)) \<longrightarrow>
      updateNode env i un st = (Inl (NotFound Node_kind i), st) \<and>
      deleteNode i st = (Inl (NotFound Node_kind i), st)) \<and>
   (i \<notin> connector_id ` set (connectors (current st)) \<longrightarrow>
      updateConnector i uc st = (Inl (NotFound Connector_kind i), st) \<and>
      deleteConnector i st = (Inl (NotFound Connector_kind i), st)) \<and>
   (i \<notin> rectangle_id ` set (rectangles (current st)) \<longrightarrow>
      updateRectangle i ur st = (Inl (NotFound Rectangle_kind i), st) \<and>
      deleteRectangle i st = (Inl (NotFound Rectangle_kind i), st)) \<and>
   (i \<notin> textBox_id ` set (textBoxes (current st)) \<longrightarrow>
      updateTextBox env i ut st = (Inl (NotFound TextBox_kind i), st) \<and>
      deleteTextBox i st = (Inl (NotFound TextBox_kind i), st))"
proof (intro conjI impI)
  assume "i \<notin> node_id ` set (nodes (current st))"
  then have none: "findIndex (\<lambda>n. node_id n = i) (nodes (current st)) = None"
    by (rule findIndex_absent)
  show "updateNode env i un st = (Inl (NotFound Node_kind i), st)"
    by (simp add: updateNode_def store_get_def produce_updateNode none thenSet_def)
  show "deleteNode i st = (Inl (NotFound Node_kind i), st)"
    by (simp add: deleteNode_def store_get_def produce_deleteNode none thenSet_def)
next
  assume "i \<notin> connector_id ` set (connectors (current st))"
  then have none: "findIndex (\<lambda>c. connector_id c = i) (connectors (current st)) = None"
    by (rule findIndex_absent)
  show "updateConnector i uc st = (Inl (NotFound Connector_kind i), st)"
    by (simp add: updateConnector_def store_get_def produce_updateConnector none thenSet_def)
  show "deleteConnector i st = (Inl (NotFound Connector_kind i), st)"
    by (simp add: deleteConnector_def store_get_def produce_deleteConnector none thenSet_def)
next
  assume "i \<notin> rectangle_id ` set (rectangles (current st))"
  then have none: "findIndex (\<lambda>r. rectangle_id r = i) (rectangles (current st)) = None"
    by (rule findIndex_absent)
  show "updateRectangle i ur st = (Inl (NotFound Rectangle_kind i), st)"
    by (simp add: updateRectangle_def store_get_def produce_updateRectangle none thenSet_def)
  show "deleteRectangle i st = (Inl (NotFound Rectangle_kind i), st)"
    by (simp add: deleteRectangle_def store_get_def produce_deleteRectangle none thenSet_def)
next
  assume "i \<notin> textBox_id ` set (textBoxes (current st))"
  then have none: "findIndex (\<lambda>t. textBox_id t = i) (textBoxes (current st)) = None"
    by (rule findIndex_absent)
  show "updateTextBox env i ut st = (Inl (NotFound TextBox_kind i), st)"
    by (simp add: updateTextBox_def store_get_def produce_updateTextBox none thenSet_def)
  show "deleteTextBox i st = (Inl (NotFound TextBox_kind i), st)"
    by (simp add: deleteTextBox_def store_get_def produce_deleteTextBox none thenSet_def)
qed

theorem absent_id_fails_without_publishing_witness:
  "''zz'' \<notin> node_id ` set (nodes (current exampleStore)) \<and>
   ''zz'' \<notin> connector_id ` set (connectors (current exampleStore)) \<and>
   ''zz'' \<notin> rectangle_id ` set (rectangles (current exampleStore)) \<and>
   ''zz'' \<notin> textBox_id ` set (textBoxes (current exampleStore)) \<and>
   updateNode exampleUtils ''zz'' emptyNodeUpdates exampleStore
     = (Inl (NotFound Node_kind ''zz''), exampleStore) \<and>
   deleteNode ''zz'' exampleStore = (Inl (NotFound Node_kind ''zz''), exampleStore) \<and>
   updateConnector ''zz'' emptyConnectorUpdates exampleStore
     = (Inl (NotFound Connector_kind ''zz''), exampleStore) \<and>
   deleteConnector ''zz'' exampleStore = (Inl (NotFound Connector_kind ''zz''), exampleStore) \<and>
   updateRectangle ''zz'' emptyRectangleUpdates exampleStore
     = (Inl (NotFound Rectangle_kind ''zz''), exampleStore) \<and>
   deleteRectangle ''zz'' exampleStore = (Inl (NotFound Rectangle_kind ''zz''), exampleStore) \<and>
   updateTextBox exampleUtils ''zz'' emptyTextBoxUpdates exampleStore
     = (Inl (NotFound TextBox_kind ''zz''), exampleStore) \<and>
   deleteTextBox ''zz'' exampleStore = (Inl (NotFound TextBox_kind ''zz''), exampleStore)"
proof -
  have n: "''zz'' \<notin> node_id ` set (nodes (current exampleStore))"
    by (simp add: example_defs)
  have c: "''zz'' \<notin> connector_id ` set (connectors (current exampleStore))"
    by (simp add: example_defs)
  have r: "''zz'' \<notin> rectangle_id ` set (rectangles (current exampleStore))"
    by (simp add: example_defs)
  have t: "''zz'' \<notin> textBox_id ` set (textBoxes (current exampleStore))"
    by (simp add: example_defs)
  show ?thesis
    using n c r t
      absent_id_fails_without_publishing [of "''zz''" exampleStore exampleUtils
        emptyNodeUpdates emptyConnectorUpdates emptyRectangleUpdates emptyTextBoxUpdates]
    by blast
qed

section \<open>What the actions publish\<close>

lemma located:
  assumes "i \<in> f ` set xs"
  obtains n where "findIndex (\<lambda>x. f x = i) xs = Some n" "n < length xs" "f (xs ! n) = i"
    "\<forall>m < n. f (xs ! m) \<noteq> i"
proof -
  from findIndex_present [OF assms] obtain n where n: "findIndex (\<lambda>x. f x = i) xs = Some n"
    by blast
  from findIndex_Some [OF n] n that show thesis
    by blast
qed

lemma current_set_connectors:
  "current (store_set (noFields\<lparr>set_connectors := Some cs\<rparr>) st) = (current st)\<lparr>connectors := cs\<rparr>"
  by (simp add: store_set_def assign_def noFields_def orElse_def)

lemma current_set_nodes_connectors:
  "current (store_set (noFields\<lparr>set_nodes := Some ns, set_connectors := Some cs\<rparr>) st)
     = (current st)\<lparr>nodes := ns, connectors := cs\<rparr>"
  by (simp add: store_set_def assign_def noFields_def orElse_def)

lemma current_set_textBoxes:
  "current (store_set (noFields\<lparr>set_textBoxes := Some ts\<rparr>) st) = (current st)\<lparr>textBoxes := ts\<rparr>"
  by (simp add: store_set_def assign_def noFields_def orElse_def)

lemma current_set_rectangles:
  "current (store_set (noFields\<lparr>set_rectangles := Some rs\<rparr>) st) = (current st)\<lparr>rectangles := rs\<rparr>"
  by (simp add: store_set_def assign_def noFields_def orElse_def)

lemma current_set_nodes:
  "current (store_set (noFields\<lparr>set_nodes := Some ns\<rparr>) st) = (current st)\<lparr>nodes := ns\<rparr>"
  by (simp add: store_set_def assign_def noFields_def orElse_def)

lemma updateConnector_found:
  assumes "findIndex (\<lambda>c. connector_id c = i) (connectors (current st)) = Some n"
  shows "fst (updateConnector i u st) = Inr ()"
    and "current (snd (updateConnector i u st)) =
           (current st)\<lparr>connectors :=
              (connectors (current st))[n := spreadConnector (connectors (current st) ! n) u]\<rparr>"
  using assms
  by (simp_all add: updateConnector_def store_get_def produce_updateConnector thenSet_def
      current_set_connectors)

lemma find_boundTo_None: "find (boundTo i) as = None \<longleftrightarrow> (\<forall>a \<in> set as. ref a \<noteq> NODE i)"
  by (auto simp: find_None_iff boundTo_def split: anchorRef.splits)

lemma set_without_nth:
  assumes "n < length xs"
  shows "set xs = insert (xs ! n) (set (take n xs @ drop (Suc n) xs))"
proof -
  have "set xs = set (take n xs @ xs ! n # drop (Suc n) xs)"
    using assms by (simp add: id_take_nth_drop [symmetric])
  then show ?thesis by simp
qed

lemma distinct_without_nth:
  assumes "distinct (map f xs)" and "n < length xs"
  shows "f (xs ! n) \<notin> f ` set (take n xs @ drop (Suc n) xs)"
proof -
  have "distinct (map f (take n xs @ xs ! n # drop (Suc n) xs))"
    using assms by (simp add: id_take_nth_drop [symmetric])
  then show ?thesis by auto
qed

lemma deleteNode_found:
  assumes "findIndex (\<lambda>n. node_id n = i) (nodes (current st)) = Some n"
  shows "fst (deleteNode i st) = Inr ()"
    and "current (snd (deleteNode i st)) =
           (current st)\<lparr>nodes := take n (nodes (current st)) @ drop (Suc n) (nodes (current st)),
              connectors := filter (\<lambda>c. \<forall>a \<in> set (anchors c). ref a \<noteq> NODE i)
                              (connectors (current st))\<rparr>"
  using assms
  by (simp_all add: deleteNode_def store_get_def produce_deleteNode thenSet_def
      current_set_nodes_connectors find_boundTo_None)

lemma noDanglingAnchor_iff:
  "noDanglingAnchor s \<longleftrightarrow>
     (\<forall>c \<in> set (connectors s). \<forall>a \<in> set (anchors c). \<forall>j. ref a = NODE j \<longrightarrow> j \<in> node_id ` set (nodes s))"
  by (auto simp: noDanglingAnchor_def resolved_def list_all_iff split: anchorRef.splits)

section \<open>Actions on an entity that is there\<close>

subsection \<open>updateConnector\<close>

text \<open>
  C7: \<open>updateConnector\<close> on an id that a connector has returns; the connector located
  (the first with the id) is replaced by the old connector with the fields of \<open>updates\<close>
  over it, and nothing is routed: its path is the path of \<open>updates\<close> when there is one
  and the old path otherwise. The other connectors and the other four sequences are as
  before.
\<close>

theorem updateConnector_merges_without_rerouting:
  assumes "i \<in> connector_id ` set (connectors (current st))"
  shows "\<exists>n < length (connectors (current st)).
           connector_id (connectors (current st) ! n) = i \<and>
           (\<forall>m < n. connector_id (connectors (current st) ! m) \<noteq> i) \<and>
           fst (updateConnector i updates st) = Inr () \<and>
           connectors (current (snd (updateConnector i updates st))) =
             (connectors (current st))[n := spreadConnector (connectors (current st) ! n) updates] \<and>
           path (connectors (current (snd (updateConnector i updates st))) ! n) =
             (case upd_path updates of
                Some p \<Rightarrow> p
              | None \<Rightarrow> path (connectors (current st) ! n)) \<and>
           nodes (current (snd (updateConnector i updates st))) = nodes (current st) \<and>
           textBoxes (current (snd (updateConnector i updates st))) = textBoxes (current st) \<and>
           rectangles (current (snd (updateConnector i updates st))) = rectangles (current st) \<and>
           icons (current (snd (updateConnector i updates st))) = icons (current st)"
proof -
  from assms obtain n where n: "findIndex (\<lambda>c. connector_id c = i) (connectors (current st)) = Some n"
    "n < length (connectors (current st))" "connector_id (connectors (current st) ! n) = i"
    "\<forall>m < n. connector_id (connectors (current st) ! m) \<noteq> i"
    by (rule located)
  have "path (spreadConnector (connectors (current st) ! n) updates) =
          (case upd_path updates of Some p \<Rightarrow> p | None \<Rightarrow> path (connectors (current st) ! n))"
    by (simp add: spreadConnector_def orElse_def)
  with n updateConnector_found [OF n(1), of updates] show ?thesis
    by (intro exI [of _ n]) simp
qed

theorem updateConnector_merges_without_rerouting_witness:
  "''ab'' \<in> connector_id ` set (connectors (current exampleStore)) \<and>
   connectors (current (snd (updateConnector ''ab''
       (emptyConnectorUpdates\<lparr>upd_anchors := Some [\<lparr>ref = FREE (5, 5)\<rparr>]\<rparr>) exampleStore))) =
     [connectorAB\<lparr>anchors := [\<lparr>ref = FREE (5, 5)\<rparr>]\<rparr>, connectorB] \<and>
   path (connectors (current (snd (updateConnector ''ab''
       (emptyConnectorUpdates\<lparr>upd_anchors := Some [\<lparr>ref = FREE (5, 5)\<rparr>]\<rparr>) exampleStore))) ! 0) =
     [(0, 0), (4, 2)]"
proof -
  have h: "''ab'' \<in> connector_id ` set (connectors (current exampleStore))"
    by (simp add: example_defs)
  show ?thesis
    using h updateConnector_merges_without_rerouting [OF h,
        of "emptyConnectorUpdates\<lparr>upd_anchors := Some [\<lparr>ref = FREE (5, 5)\<rparr>]\<rparr>"]
    by (auto simp: example_defs spreadConnector_def orElse_def emptyConnectorUpdates_def
        less_Suc_eq numeral_2_eq_2)
qed

subsection \<open>deleteNode\<close>

text \<open>
  C1: \<open>deleteNode\<close> on an id that a node has returns; the node located (the first with
  the id) is removed, and the connectors left are those with no anchor bound to the id. So
  when ids of nodes are not repeated no node has the id afterwards, and when every bound
  anchor was bound to a node of the scene before, that is so afterwards.
\<close>

theorem deleteNode_cascades_to_connectors:
  assumes "i \<in> node_id ` set (nodes (current st))"
  shows "\<exists>n < length (nodes (current st)).
           node_id (nodes (current st) ! n) = i \<and>
           (\<forall>m < n. node_id (nodes (current st) ! m) \<noteq> i) \<and>
           fst (deleteNode i st) = Inr () \<and>
           nodes (current (snd (deleteNode i st))) =
             take n (nodes (current st)) @ drop (Suc n) (nodes (current st)) \<and>
           connectors (current (snd (deleteNode i st))) =
             filter (\<lambda>c. \<forall>a \<in> set (anchors c). ref a \<noteq> NODE i) (connectors (current st)) \<and>
           (distinct (map node_id (nodes (current st))) \<longrightarrow>
              i \<notin> node_id ` set (nodes (current (snd (deleteNode i st))))) \<and>
           (noDanglingAnchor (current st) \<longrightarrow> noDanglingAnchor (current (snd (deleteNode i st))))"
proof -
  let ?ns = "nodes (current st)"
  from assms obtain n where n: "findIndex (\<lambda>n. node_id n = i) ?ns = Some n"
    "n < length ?ns" "node_id (?ns ! n) = i" "\<forall>m < n. node_id (?ns ! m) \<noteq> i"
    by (rule located)
  note after = deleteNode_found [OF n(1)]
  have gone: "i \<notin> node_id ` set (nodes (current (snd (deleteNode i st))))"
    if "distinct (map node_id ?ns)"
    using distinct_without_nth [OF that n(2)] n(3) by (simp add: after(2))
  have kept: "noDanglingAnchor (current (snd (deleteNode i st)))"
    if nd: "noDanglingAnchor (current st)"
    unfolding noDanglingAnchor_iff
  proof (intro ballI allI impI)
    fix c a j
    assume c: "c \<in> set (connectors (current (snd (deleteNode i st))))"
      and a: "a \<in> set (anchors c)" and j: "ref a = NODE j"
    from c have c': "c \<in> set (connectors (current st))" and free: "\<forall>a \<in> set (anchors c). ref a \<noteq> NODE i"
      by (simp_all add: after(2))
    from free a j have "j \<noteq> i" by auto
    moreover from nd c' a j obtain x where x: "x \<in> set ?ns" "node_id x = j"
      unfolding noDanglingAnchor_iff by blast
    ultimately have "x \<noteq> ?ns ! n"
      using n(3) by auto
    with x(1) set_without_nth [OF n(2)] have "x \<in> set (take n ?ns @ drop (Suc n) ?ns)"
      by auto
    with x(2) show "j \<in> node_id ` set (nodes (current (snd (deleteNode i st))))"
      by (auto simp: after(2))
  qed
  from n after gone kept show ?thesis
    by (intro exI [of _ n]) simp
qed

theorem deleteNode_cascades_to_connectors_witness:
  "''a'' \<in> node_id ` set (nodes (current exampleStore)) \<and>
   distinct (map node_id (nodes (current exampleStore))) \<and>
   noDanglingAnchor (current exampleStore) \<and>
   fst (deleteNode ''a'' exampleStore) = Inr () \<and>
   nodes (current (snd (deleteNode ''a'' exampleStore))) = [nodeB] \<and>
   connectors (current (snd (deleteNode ''a'' exampleStore))) = [connectorB] \<and>
   ''a'' \<notin> node_id ` set (nodes (current (snd (deleteNode ''a'' exampleStore)))) \<and>
   noDanglingAnchor (current (snd (deleteNode ''a'' exampleStore)))"
proof -
  have h: "''a'' \<in> node_id ` set (nodes (current exampleStore))"
    by (simp add: example_defs)
  have d: "distinct (map node_id (nodes (current exampleStore)))"
    by (simp add: example_defs)
  have r: "noDanglingAnchor (current exampleStore)"
    by (simp add: example_defs noDanglingAnchor_def resolved_def)
  show ?thesis
    using h d r deleteNode_cascades_to_connectors [OF h]
    by (auto simp: example_defs less_Suc_eq numeral_2_eq_2)
qed

subsection \<open>updateNode\<close>

lemma updateNode_found:
  assumes "findIndex (\<lambda>n. node_id n = i) (nodes (current st)) = Some n"
  shows "fst (updateNode env i u st) = Inr ()"
    and "current (snd (updateNode env i u st)) =
           (current st)\<lparr>nodes := (nodes (current st))[n := spreadNode (nodes (current st) ! n) u],
              connectors :=
                map (reroute env i ((nodes (current st))[n := spreadNode (nodes (current st) ! n) u])
                       (getAllAnchors (connectors (current st))))
                  (connectors (current st))\<rparr>"
  using assms
  by (simp_all add: updateNode_def store_get_def produce_updateNode thenSet_def
      current_set_nodes_connectors)

lemma getAllAnchors_map_reroute:
  "getAllAnchors (map (reroute env i ns all) cs) = getAllAnchors cs"
  using getAllAnchors_reroute [of env i ns all cs "[]"] by simp

text \<open>
  C2: \<open>updateNode\<close> on an id that a node has returns; the node located (the first
  with the id) is replaced by the old node with the fields of \<open>updates\<close> over it. Every
  connector keeps its anchors, so the anchors of all connectors are the same before and
  after. A connector with an anchor bound to the id is the old connector with the path
  that \<open>getConnectorPath\<close> gives for its anchors, the nodes after the update and the
  anchors of all connectors; a connector with no such anchor is as before.
\<close>

theorem updateNode_reroutes_bound_connectors:
  assumes "i \<in> node_id ` set (nodes (current st))"
  shows "\<exists>n < length (nodes (current st)).
           node_id (nodes (current st) ! n) = i \<and>
           (\<forall>m < n. node_id (nodes (current st) ! m) \<noteq> i) \<and>
           fst (updateNode env i updates st) = Inr () \<and>
           nodes (current (snd (updateNode env i updates st))) =
             (nodes (current st))[n := spreadNode (nodes (current st) ! n) updates] \<and>
           length (connectors (current (snd (updateNode env i updates st)))) =
             length (connectors (current st)) \<and>
           getAllAnchors (connectors (current (snd (updateNode env i updates st)))) =
             getAllAnchors (connectors (current st)) \<and>
           (\<forall>m < length (connectors (current st)).
              anchors (connectors (current (snd (updateNode env i updates st))) ! m) =
                anchors (connectors (current st) ! m) \<and>
              (if \<exists>a \<in> set (anchors (connectors (current st) ! m)). ref a = NODE i
               then connectors (current (snd (updateNode env i updates st))) ! m =
                      (connectors (current st) ! m)\<lparr>path :=
                         getConnectorPath env
                           (anchors (connectors (current (snd (updateNode env i updates st))) ! m))
                           (nodes (current (snd (updateNode env i updates st))))
                           (getAllAnchors (connectors (current (snd (updateNode env i updates st)))))\<rparr>
               else connectors (current (snd (updateNode env i updates st))) ! m =
                      connectors (current st) ! m))"
proof -
  let ?ns = "nodes (current st)"
  let ?cs = "connectors (current st)"
  from assms obtain n where n: "findIndex (\<lambda>n. node_id n = i) ?ns = Some n"
    "n < length ?ns" "node_id (?ns ! n) = i" "\<forall>m < n. node_id (?ns ! m) \<noteq> i"
    by (rule located)
  note after = updateNode_found [OF n(1), of env updates]
  let ?ns' = "?ns[n := spreadNode (?ns ! n) updates]"
  have cs': "connectors (current (snd (updateNode env i updates st))) =
      map (reroute env i ?ns' (getAllAnchors ?cs)) ?cs"
    and ns': "nodes (current (snd (updateNode env i updates st))) = ?ns'"
    by (simp_all add: after(2))
  have each: "anchors (map (reroute env i ?ns' (getAllAnchors ?cs)) ?cs ! m) = anchors (?cs ! m) \<and>
      (if \<exists>a \<in> set (anchors (?cs ! m)). ref a = NODE i
       then map (reroute env i ?ns' (getAllAnchors ?cs)) ?cs ! m =
              (?cs ! m)\<lparr>path := getConnectorPath env (anchors (?cs ! m)) ?ns' (getAllAnchors ?cs)\<rparr>
       else map (reroute env i ?ns' (getAllAnchors ?cs)) ?cs ! m = ?cs ! m)"
    if "m < length ?cs" for m
    using that find_boundTo_None [of i "anchors (?cs ! m)"]
    by (auto simp: reroute_def)
  show ?thesis
  proof (intro exI [of _ n] conjI allI impI)
    fix m
    assume m: "m < length ?cs"
    from each [OF m] show "anchors (connectors (current (snd (updateNode env i updates st))) ! m) =
                anchors (connectors (current st) ! m)"
      by (simp add: cs')
    from each [OF m] show "(if \<exists>a \<in> set (anchors (connectors (current st) ! m)). ref a = NODE i
               then connectors (current (snd (updateNode env i updates st))) ! m =
                      (connectors (current st) ! m)\<lparr>path :=
                         getConnectorPath env
                           (anchors (connectors (current (snd (updateNode env i updates st))) ! m))
                           (nodes (current (snd (updateNode env i updates st))))
                           (getAllAnchors (connectors (current (snd (updateNode env i updates st)))))\<rparr>
               else connectors (current (snd (updateNode env i updates st))) ! m =
                      connectors (current st) ! m)"
      unfolding ns' unfolding cs' getAllAnchors_map_reroute
      by (simp split: if_splits)
  qed (use n after in \<open>simp_all add: getAllAnchors_map_reroute\<close>)
qed

theorem updateNode_reroutes_bound_connectors_witness:
  "''b'' \<in> node_id ` set (nodes (current exampleStore)) \<and>
   nodes (current (snd (updateNode exampleUtils ''b'' moveNodeB exampleStore))) =
     [nodeA, nodeB\<lparr>node_position := (9, 9)\<rparr>] \<and>
   connectors (current (snd (updateNode exampleUtils ''b'' moveNodeB exampleStore))) =
     [connectorAB\<lparr>path := [(0, 0), (9, 9)]\<rparr>, connectorB\<lparr>path := [(9, 9), (7, 7)]\<rparr>]"
proof -
  define after where "after = current (snd (updateNode exampleUtils ''b'' moveNodeB exampleStore))"
  have h: "''b'' \<in> node_id ` set (nodes (current exampleStore))"
    by (simp add: example_defs)
  have before: "nodes (current exampleStore) = [nodeA, nodeB]"
    "connectors (current exampleStore) = [connectorAB, connectorB]"
    by (simp_all add: exampleStore_def exampleScene_def)
  obtain n where n: "n < length [nodeA, nodeB]"
      "node_id ([nodeA, nodeB] ! n) = ''b''"
      "nodes after = [nodeA, nodeB][n := spreadNode ([nodeA, nodeB] ! n) moveNodeB]"
      "length (connectors after) = length [connectorAB, connectorB]"
      "getAllAnchors (connectors after) = getAllAnchors [connectorAB, connectorB]"
      "\<forall>m < length [connectorAB, connectorB].
              anchors (connectors after ! m) = anchors ([connectorAB, connectorB] ! m) \<and>
              (if \<exists>a \<in> set (anchors ([connectorAB, connectorB] ! m)). ref a = NODE ''b''
               then connectors after ! m =
                      ([connectorAB, connectorB] ! m)\<lparr>path :=
                         getConnectorPath exampleUtils (anchors (connectors after ! m))
                           (nodes after) (getAllAnchors (connectors after))\<rparr>
               else connectors after ! m = [connectorAB, connectorB] ! m)"
    using updateNode_reroutes_bound_connectors [OF h, of exampleUtils moveNodeB]
    unfolding after_def [symmetric] before by blast
  have n1: "n = 1"
    using n(1,2) by (auto simp: nodeA_def nodeB_def less_Suc_eq)
  have ns: "nodes after = [nodeA, nodeB\<lparr>node_position := (9, 9)\<rparr>]"
    using n(3) unfolding n1
    by (simp add: nodeB_def spreadNode_def orElse_def moveNodeB_def emptyNodeUpdates_def)
  have a0: "anchors (connectors after ! 0) = anchors connectorAB"
    and a1: "anchors (connectors after ! 1) = anchors connectorB"
    using n(6) by simp_all
  have c0: "connectors after ! 0 =
      connectorAB\<lparr>path := getConnectorPath exampleUtils (anchors connectorAB)
        [nodeA, nodeB\<lparr>node_position := (9, 9)\<rparr>] (getAllAnchors [connectorAB, connectorB])\<rparr>"
    using n(6) [rule_format, of 0] unfolding a0 ns n(5)
    by (simp add: connectorAB_def)
  have c1: "connectors after ! 1 =
      connectorB\<lparr>path := getConnectorPath exampleUtils (anchors connectorB)
        [nodeA, nodeB\<lparr>node_position := (9, 9)\<rparr>] (getAllAnchors [connectorAB, connectorB])\<rparr>"
    using n(6) [rule_format, of 1] unfolding a1 ns n(5)
    by (simp add: connectorB_def)
  have p0: "getConnectorPath exampleUtils (anchors connectorAB)
        [nodeA, nodeB\<lparr>node_position := (9, 9)\<rparr>] (getAllAnchors [connectorAB, connectorB]) =
        [(0, 0), (9, 9)]"
    by (simp add: exampleUtils_def connectorAB_def nodeA_def nodeB_def)
  have p1: "getConnectorPath exampleUtils (anchors connectorB)
        [nodeA, nodeB\<lparr>node_position := (9, 9)\<rparr>] (getAllAnchors [connectorAB, connectorB]) =
        [(9, 9), (7, 7)]"
    by (simp add: exampleUtils_def connectorB_def nodeA_def nodeB_def)
  have "length (connectors after) = 2"
    using n(4) by simp
  with c0 c1 have "connectors after =
     [connectorAB\<lparr>path := [(0, 0), (9, 9)]\<rparr>, connectorB\<lparr>path := [(9, 9), (7, 7)]\<rparr>]"
    unfolding p0 p1
    by (auto simp: list_eq_iff_nth_eq less_Suc_eq numeral_2_eq_2)
  with h ns show ?thesis
    unfolding after_def by simp
qed

subsection \<open>updateTextBox\<close>

lemma updateTextBox_found:
  assumes "findIndex (\<lambda>t. textBox_id t = i) (textBoxes (current st)) = Some n"
  shows "fst (updateTextBox env i u st) = Inr ()"
    and "current (snd (updateTextBox env i u st)) =
           (current st)\<lparr>textBoxes := (textBoxes (current st))[n :=
              spreadTextBox
                (if upd_text u \<noteq> None \<or> upd_fontSize u \<noteq> None
                 then (textBoxes (current st) ! n)\<lparr>textBox_size :=
                        measured env (textBoxes (current st) ! n) u\<rparr>
                 else textBoxes (current st) ! n) u]\<rparr>"
  using assms
  by (simp_all add: updateTextBox_def store_get_def produce_updateTextBox thenSet_def
      current_set_textBoxes)

text \<open>
  C5: \<open>updateTextBox\<close> on an id that a text box has, with updates that have a text or
  a font size and no size, returns, and the text box located (the first with the id) then
  has the height 1 and the width that \<open>getTextWidth\<close> gives for the text (that of
  \<open>updates\<close> if there is one, the old one otherwise) in the style made of the font size
  (likewise), the default font family and the default font weight.
\<close>

theorem updateTextBox_measures_new_text:
  assumes "i \<in> textBox_id ` set (textBoxes (current st))"
    and "upd_text updates \<noteq> None \<or> upd_fontSize updates \<noteq> None"
    and "upd_size updates = None"
  shows "\<exists>n < length (textBoxes (current st)).
           textBox_id (textBoxes (current st) ! n) = i \<and>
           (\<forall>m < n. textBox_id (textBoxes (current st) ! m) \<noteq> i) \<and>
           fst (updateTextBox env i updates st) = Inr () \<and>
           length (textBoxes (current (snd (updateTextBox env i updates st)))) =
             length (textBoxes (current st)) \<and>
           width (textBox_size (textBoxes (current (snd (updateTextBox env i updates st))) ! n)) =
             getTextWidth env
               (case upd_text updates of
                  Some t \<Rightarrow> t
                | None \<Rightarrow> textBox_text (textBoxes (current st) ! n))
               \<lparr>fontSize =
                  (case upd_fontSize updates of
                     Some f \<Rightarrow> f
                   | None \<Rightarrow> textBox_fontSize (textBoxes (current st) ! n)),
                fontFamily = DEFAULT_FONT_FAMILY env,
                fontWeight = TEXTBOX_DEFAULTS_fontWeight env\<rparr> \<and>
           height (textBox_size (textBoxes (current (snd (updateTextBox env i updates st))) ! n)) = 1"
proof -
  let ?ts = "textBoxes (current st)"
  from assms(1) obtain n where n: "findIndex (\<lambda>t. textBox_id t = i) ?ts = Some n"
    "n < length ?ts" "textBox_id (?ts ! n) = i" "\<forall>m < n. textBox_id (?ts ! m) \<noteq> i"
    by (rule located)
  note after = updateTextBox_found [OF n(1), of env updates]
  have "textBox_size (textBoxes (current (snd (updateTextBox env i updates st))) ! n) =
          measured env (?ts ! n) updates"
    using assms(2,3) n(2) by (auto simp: after(2) spreadTextBox_def orElse_def)
  then show ?thesis
    using n after(1)
    by (intro exI [of _ n]) (simp add: after(2) measured_def orElse_def)
qed

theorem updateTextBox_measures_new_text_witness:
  "''t'' \<in> textBox_id ` set (textBoxes (current exampleStore)) \<and>
   upd_text sayHello = Some ''Hello'' \<and>
   upd_size sayHello = None \<and>
   fst (updateTextBox exampleUtils ''t'' sayHello exampleStore) = Inr () \<and>
   width (textBox_size (textBoxes (current (snd (updateTextBox exampleUtils ''t'' sayHello exampleStore))) ! 0))
     = 10 \<and>
   height (textBox_size (textBoxes (current (snd (updateTextBox exampleUtils ''t'' sayHello exampleStore))) ! 0))
     = 1"
proof -
  have h: "''t'' \<in> textBox_id ` set (textBoxes (current exampleStore))"
    by (simp add: example_defs)
  have t: "upd_text sayHello \<noteq> None \<or> upd_fontSize sayHello \<noteq> None"
    by (simp add: sayHello_def)
  have z: "upd_size sayHello = None"
    by (simp add: sayHello_def emptyTextBoxUpdates_def)
  show ?thesis
    using h z updateTextBox_measures_new_text [OF h t z, of exampleUtils]
    by (auto simp: example_defs exampleUtils_def sayHello_def emptyTextBoxUpdates_def)
qed

text \<open>
  C10: \<open>updateTextBox\<close> on an id that a text box has, with updates that have a size
  together with a text or a font size, returns, and the text box located then has the size
  of \<open>updates\<close>, not the measured one.
\<close>

theorem updateTextBox_given_size_wins:
  assumes "i \<in> textBox_id ` set (textBoxes (current st))"
    and "upd_text updates \<noteq> None \<or> upd_fontSize updates \<noteq> None"
    and "upd_size updates = Some given"
  shows "\<exists>n < length (textBoxes (current st)).
           textBox_id (textBoxes (current st) ! n) = i \<and>
           (\<forall>m < n. textBox_id (textBoxes (current st) ! m) \<noteq> i) \<and>
           fst (updateTextBox env i updates st) = Inr () \<and>
           length (textBoxes (current (snd (updateTextBox env i updates st)))) =
             length (textBoxes (current st)) \<and>
           textBox_size (textBoxes (current (snd (updateTextBox env i updates st))) ! n) = given"
proof -
  let ?ts = "textBoxes (current st)"
  from assms(1) obtain n where n: "findIndex (\<lambda>t. textBox_id t = i) ?ts = Some n"
    "n < length ?ts" "textBox_id (?ts ! n) = i" "\<forall>m < n. textBox_id (?ts ! m) \<noteq> i"
    by (rule located)
  note after = updateTextBox_found [OF n(1), of env updates]
  show ?thesis
    using n after(1) assms(3)
    by (intro exI [of _ n]) (simp add: after(2) spreadTextBox_def orElse_def)
qed

theorem updateTextBox_given_size_wins_witness:
  "''t'' \<in> textBox_id ` set (textBoxes (current exampleStore)) \<and>
   upd_text sayHelloSized = Some ''Hello'' \<and>
   upd_size sayHelloSized = Some \<lparr>width = 3, height = 4\<rparr> \<and>
   fst (updateTextBox exampleUtils ''t'' sayHelloSized exampleStore) = Inr () \<and>
   textBox_size (textBoxes (current (snd (updateTextBox exampleUtils ''t'' sayHelloSized exampleStore))) ! 0)
     = \<lparr>width = 3, height = 4\<rparr>"
proof -
  have h: "''t'' \<in> textBox_id ` set (textBoxes (current exampleStore))"
    by (simp add: example_defs)
  have t: "upd_text sayHelloSized \<noteq> None \<or> upd_fontSize sayHelloSized \<noteq> None"
    by (simp add: sayHelloSized_def)
  have z: "upd_size sayHelloSized = Some \<lparr>width = 3, height = 4\<rparr>"
    by (simp add: sayHelloSized_def)
  show ?thesis
    using h z updateTextBox_given_size_wins [OF h t z, of exampleUtils]
    by (auto simp: example_defs sayHelloSized_def)
qed

section \<open>Ids along sequences of actions\<close>

lemma distinct_map_update:
  assumes "distinct (map f xs)" and "n < length xs" and "f y = f (xs ! n) \<or> f y \<notin> f ` set xs"
  shows "distinct (map f (xs[n := y]))"
proof -
  have "distinct (map f (take n xs @ xs ! n # drop (Suc n) xs))"
    using assms(1,2) by (simp only: id_take_nth_drop [symmetric])
  then have parts: "distinct (map f (take n xs))" "distinct (map f (drop (Suc n) xs))"
    "f ` set (take n xs) \<inter> f ` set (drop (Suc n) xs) = {}"
    "f (xs ! n) \<notin> f ` set (take n xs)" "f (xs ! n) \<notin> f ` set (drop (Suc n) xs)"
    by simp_all
  have "f ` set (take n xs) \<subseteq> f ` set xs" "f ` set (drop (Suc n) xs) \<subseteq> f ` set xs"
    by (auto dest: in_set_takeD in_set_dropD)
  with assms(3) parts(4,5)
  have "f y \<notin> f ` set (take n xs)" "f y \<notin> f ` set (drop (Suc n) xs)"
    by auto
  with parts(1-3) have "distinct (map f (take n xs @ y # drop (Suc n) xs))"
    by simp
  then show ?thesis
    using assms(2) by (simp add: upd_conv_take_nth_drop)
qed

lemma distinct_map_without_nth:
  assumes "distinct (map f xs)"
  shows "distinct (map f (take n xs @ drop (Suc n) xs))"
proof (cases "n < length xs")
  case True
  have "distinct (map f (take n xs @ xs ! n # drop (Suc n) xs))"
    using assms True by (simp add: id_take_nth_drop [symmetric])
  then show ?thesis by auto
next
  case False
  with assms show ?thesis by simp
qed

lemma connector_id_reroute: "connector_id (reroute env i ns all c) = connector_id c"
  by (simp add: reroute_def)

lemma current_createNode:
  "current (snd (createNode env x st)) = (current st)\<lparr>nodes := nodes (current st) @ [nodeInputToNode env x]\<rparr>"
  by (simp add: createNode_def store_get_def produce_createNode thenSet_def current_set_nodes)

lemma current_createRectangle:
  "current (snd (createRectangle env x st)) =
     (current st)\<lparr>rectangles := rectangles (current st) @ [rectangleInputToRectangle env x]\<rparr>"
  by (simp add: createRectangle_def store_get_def produce_createRectangle thenSet_def
      current_set_rectangles)

lemma current_createTextBox:
  "current (snd (createTextBox env x st)) =
     (current st)\<lparr>textBoxes := textBoxes (current st) @ [textBoxInputToTextBox env x]\<rparr>"
  by (simp add: createTextBox_def store_get_def produce_createTextBox thenSet_def
      current_set_textBoxes)

lemma current_createConnector:
  "current (snd (createConnector env x st)) =
     (current st)\<lparr>connectors := connectors (current st) @
        [connectorInputToConnector env x (nodes (current st)) (getAllAnchors (connectors (current st)))]\<rparr>"
  by (simp add: createConnector_def store_get_def thenSet_def current_set_connectors
      produce_createConnector [of _ "connectorInputToConnector env x"])

lemma current_updateNode:
  "current (snd (updateNode env i u st)) =
     (case findIndex (\<lambda>n. node_id n = i) (nodes (current st)) of
        None \<Rightarrow> current st
      | Some n \<Rightarrow>
          (current st)\<lparr>nodes := (nodes (current st))[n := spreadNode (nodes (current st) ! n) u],
             connectors :=
               map (reroute env i ((nodes (current st))[n := spreadNode (nodes (current st) ! n) u])
                      (getAllAnchors (connectors (current st))))
                 (connectors (current st))\<rparr>)"
  by (simp add: updateNode_def store_get_def produce_updateNode thenSet_def
      current_set_nodes_connectors split: option.splits)

lemma current_deleteNode:
  "current (snd (deleteNode i st)) =
     (case findIndex (\<lambda>n. node_id n = i) (nodes (current st)) of
        None \<Rightarrow> current st
      | Some n \<Rightarrow>
          (current st)\<lparr>nodes := take n (nodes (current st)) @ drop (Suc n) (nodes (current st)),
             connectors := filter (\<lambda>c. find (boundTo i) (anchors c) = None) (connectors (current st))\<rparr>)"
  by (simp add: deleteNode_def store_get_def produce_deleteNode thenSet_def
      current_set_nodes_connectors split: option.splits)

lemma current_updateConnector:
  "current (snd (updateConnector i u st)) =
     (case findIndex (\<lambda>c. connector_id c = i) (connectors (current st)) of
        None \<Rightarrow> current st
      | Some n \<Rightarrow>
          (current st)\<lparr>connectors :=
             (connectors (current st))[n := spreadConnector (connectors (current st) ! n) u]\<rparr>)"
  by (simp add: updateConnector_def store_get_def produce_updateConnector thenSet_def
      current_set_connectors split: option.splits)

lemma current_deleteConnector:
  "current (snd (deleteConnector i st)) =
     (case findIndex (\<lambda>c. connector_id c = i) (connectors (current st)) of
        None \<Rightarrow> current st
      | Some n \<Rightarrow>
          (current st)\<lparr>connectors :=
             take n (connectors (current st)) @ drop (Suc n) (connectors (current st))\<rparr>)"
  by (simp add: deleteConnector_def store_get_def produce_deleteConnector thenSet_def
      current_set_connectors split: option.splits)

lemma current_updateRectangle:
  "current (snd (updateRectangle i u st)) =
     (case findIndex (\<lambda>r. rectangle_id r = i) (rectangles (current st)) of
        None \<Rightarrow> current st
      | Some n \<Rightarrow>
          (current st)\<lparr>rectangles :=
             (rectangles (current st))[n := spreadRectangle (rectangles (current st) ! n) u]\<rparr>)"
  by (simp add: updateRectangle_def store_get_def produce_updateRectangle thenSet_def
      current_set_rectangles split: option.splits)

lemma current_deleteRectangle:
  "current (snd (deleteRectangle i st)) =
     (case findIndex (\<lambda>r. rectangle_id r = i) (rectangles (current st)) of
        None \<Rightarrow> current st
      | Some n \<Rightarrow>
          (current st)\<lparr>rectangles :=
             take n (rectangles (current st)) @ drop (Suc n) (rectangles (current st))\<rparr>)"
  by (simp add: deleteRectangle_def store_get_def produce_deleteRectangle thenSet_def
      current_set_rectangles split: option.splits)

lemma current_updateTextBox:
  "current (snd (updateTextBox env i u st)) =
     (case findIndex (\<lambda>t. textBox_id t = i) (textBoxes (current st)) of
        None \<Rightarrow> current st
      | Some n \<Rightarrow>
          (current st)\<lparr>textBoxes := (textBoxes (current st))[n :=
              spreadTextBox
                (if upd_text u \<noteq> None \<or> upd_fontSize u \<noteq> None
                 then (textBoxes (current st) ! n)\<lparr>textBox_size :=
                        measured env (textBoxes (current st) ! n) u\<rparr>
                 else textBoxes (current st) ! n) u]\<rparr>)"
  by (simp add: updateTextBox_def store_get_def produce_updateTextBox thenSet_def
      current_set_textBoxes split: option.splits)

lemma current_deleteTextBox:
  "current (snd (deleteTextBox i st)) =
     (case findIndex (\<lambda>t. textBox_id t = i) (textBoxes (current st)) of
        None \<Rightarrow> current st
      | Some n \<Rightarrow>
          (current st)\<lparr>textBoxes :=
             take n (textBoxes (current st)) @ drop (Suc n) (textBoxes (current st))\<rparr>)"
  by (simp add: deleteTextBox_def store_get_def produce_deleteTextBox thenSet_def
      current_set_textBoxes split: option.splits)

lemma current_updateScene:
  "current (snd (updateScene scene st)) =
     (current st)\<lparr>nodes := nodes scene, connectors := connectors scene, rectangles := rectangles scene\<rparr>"
  by (simp add: updateScene_def store_set_def assign_def noFields_def orElse_def)

lemma current_setScene:
  "current (snd (setScene env raw st)) =
     (if sceneInput_parse env raw then sceneInputToScene env raw else current st)"
  by (simp add: setScene_def store_set_def assign_def allFields_def orElse_def Let_def)

lemma freshOrSame_update:
  assumes "distinct (map f xs)" and "findIndex (\<lambda>x. f x = i) xs = Some n"
    and "freshOrSame u i (map f xs)" and "f y = orElse u (f (xs ! n))"
  shows "distinct (map f (xs[n := y]))"
proof -
  from findIndex_Some [OF assms(2)] have n: "n < length xs" "f (xs ! n) = i"
    by simp_all
  have "f y = f (xs ! n) \<or> f y \<notin> f ` set xs"
    using assms(3,4) n(2) by (auto simp: freshOrSame_def orElse_def split: option.splits)
  with assms(1) n(1) show ?thesis
    by (rule distinct_map_update)
qed

lemma perform_keeps_uniqueIds:
  assumes "uniqueIds (current st)" and "keepsIdsApart env (current st) a"
  shows "uniqueIds (current (perform env a st))"
proof (cases a)
  case (SetScene raw)
  with assms show ?thesis
    by (simp add: current_setScene)
next
  case (UpdateScene scene)
  with assms show ?thesis
    by (simp add: current_updateScene uniqueIds_def)
next
  case (CreateNode x)
  with assms show ?thesis
    by (simp add: current_createNode uniqueIds_def)
next
  case (UpdateNode i u)
  show ?thesis
  proof (cases "findIndex (\<lambda>n. node_id n = i) (nodes (current st))")
    case None
    with assms UpdateNode show ?thesis
      by (simp add: current_updateNode)
  next
    case (Some n)
    have "distinct (map node_id ((nodes (current st))[n := spreadNode (nodes (current st) ! n) u]))"
      using assms UpdateNode
      by (intro freshOrSame_update [OF _ Some, of "upd_node_id u"])
        (simp_all add: uniqueIds_def spreadNode_def)
    with assms(1) Some UpdateNode show ?thesis
      by (simp add: current_updateNode uniqueIds_def connector_id_reroute comp_def)
  qed
next
  case (DeleteNode i)
  with assms(1) show ?thesis
    by (simp add: current_deleteNode uniqueIds_def distinct_map_without_nth distinct_map_filter
        del: map_append split: option.splits)
next
  case (CreateConnector x)
  with assms show ?thesis
    by (simp add: current_createConnector uniqueIds_def)
next
  case (UpdateConnector i u)
  show ?thesis
  proof (cases "findIndex (\<lambda>c. connector_id c = i) (connectors (current st))")
    case None
    with assms UpdateConnector show ?thesis
      by (simp add: current_updateConnector)
  next
    case (Some n)
    have "distinct (map connector_id
        ((connectors (current st))[n := spreadConnector (connectors (current st) ! n) u]))"
      using assms UpdateConnector
      by (intro freshOrSame_update [OF _ Some, of "upd_connector_id u"])
        (simp_all add: uniqueIds_def spreadConnector_def)
    with assms(1) Some UpdateConnector show ?thesis
      by (simp add: current_updateConnector uniqueIds_def)
  qed
next
  case (DeleteConnector i)
  with assms(1) show ?thesis
    by (simp add: current_deleteConnector uniqueIds_def distinct_map_without_nth
        del: map_append split: option.splits)
next
  case (CreateRectangle x)
  with assms show ?thesis
    by (simp add: current_createRectangle uniqueIds_def)
next
  case (CreateTextBox x)
  with assms show ?thesis
    by (simp add: current_createTextBox uniqueIds_def)
next
  case (UpdateTextBox i u)
  show ?thesis
  proof (cases "findIndex (\<lambda>t. textBox_id t = i) (textBoxes (current st))")
    case None
    with assms UpdateTextBox show ?thesis
      by (simp add: current_updateTextBox)
  next
    case (Some n)
    let ?y = "spreadTextBox
                (if upd_text u \<noteq> None \<or> upd_fontSize u \<noteq> None
                 then (textBoxes (current st) ! n)\<lparr>textBox_size :=
                        measured env (textBoxes (current st) ! n) u\<rparr>
                 else textBoxes (current st) ! n) u"
    have "distinct (map textBox_id ((textBoxes (current st))[n := ?y]))"
      using assms UpdateTextBox
      by (intro freshOrSame_update [OF _ Some, of "upd_textBox_id u"])
        (simp_all add: uniqueIds_def spreadTextBox_def)
    with assms(1) Some UpdateTextBox show ?thesis
      by (simp add: current_updateTextBox uniqueIds_def)
  qed
next
  case (DeleteTextBox i)
  with assms(1) show ?thesis
    by (simp add: current_deleteTextBox uniqueIds_def distinct_map_without_nth
        del: map_append split: option.splits)
next
  case (UpdateRectangle i u)
  show ?thesis
  proof (cases "findIndex (\<lambda>r. rectangle_id r = i) (rectangles (current st))")
    case None
    with assms UpdateRectangle show ?thesis
      by (simp add: current_updateRectangle)
  next
    case (Some n)
    have "distinct (map rectangle_id
        ((rectangles (current st))[n := spreadRectangle (rectangles (current st) ! n) u]))"
      using assms UpdateRectangle
      by (intro freshOrSame_update [OF _ Some, of "upd_rectangle_id u"])
        (simp_all add: uniqueIds_def spreadRectangle_def)
    with assms(1) Some UpdateRectangle show ?thesis
      by (simp add: current_updateRectangle uniqueIds_def)
  qed
next
  case (DeleteRectangle i)
  with assms(1) show ?thesis
    by (simp add: current_deleteRectangle uniqueIds_def distinct_map_without_nth
        del: map_append split: option.splits)
qed

lemma run_keeps_uniqueIds:
  "uniqueIds (current st) \<Longrightarrow> allKeepIdsApart env as st \<Longrightarrow> uniqueIds (current (run env as st))"
proof (induction as arbitrary: st)
  case Nil
  then show ?case by simp
next
  case (Cons a as)
  from Cons.prems have "uniqueIds (current (perform env a st))"
    by (simp add: perform_keeps_uniqueIds)
  with Cons show ?case by simp
qed

text \<open>
  C6, as amended: in every scene reached from the initial scene by a sequence of calls of
  which each keeps ids apart in the scene it is made in (see \<open>keepsIdsApart\<close>: a
  create action brings an id that its sequence does not have, an update action leaves the
  id, or sets it to one that its sequence does not have, \<open>updateScene\<close> and an accepted
  \<open>setScene\<close> bring sequences without repeated ids), no two entities of a sequence share
  an id.
\<close>

theorem reachable_scenes_have_unique_ids:
  assumes "allKeepIdsApart env as initialState"
  shows "uniqueIds (current (run env as initialState))"
  using assms
  by (intro run_keeps_uniqueIds) (simp_all add: initialState_def initialScene_def uniqueIds_def)

theorem reachable_scenes_have_unique_ids_witness:
  "allKeepIdsApart exampleUtils
     [CreateNode nodeA, CreateNode nodeB, CreateConnector connectorAB, DeleteNode ''a'']
     initialState \<and>
   uniqueIds (current (run exampleUtils
     [CreateNode nodeA, CreateNode nodeB, CreateConnector connectorAB, DeleteNode ''a'']
     initialState))"
proof -
  have h: "allKeepIdsApart exampleUtils
     [CreateNode nodeA, CreateNode nodeB, CreateConnector connectorAB, DeleteNode ''a'']
     initialState"
    by (simp add: current_createNode current_createConnector exampleUtils_def
        initialState_def initialScene_def nodeA_def nodeB_def connectorAB_def)
  from h reachable_scenes_have_unique_ids [OF h] show ?thesis
    by (rule conjI)
qed

text \<open>
  Whatever the normaliser of node inputs is, it sees the input only, not the scene: the
  same input created twice gives two nodes with one id.
\<close>

lemma createNode_twice_repeats_id:
  "\<not> distinct (map node_id (nodes (current (run env [CreateNode x, CreateNode x] st))))"
  by (simp add: current_createNode)

text \<open>
  C6, as stated, fails: no action compares ids. Creating the same node twice, and
  \<open>updateScene\<close> with a node sequence that repeats a node, both publish a scene with two
  nodes of one id.
\<close>

theorem repeated_ids_are_reachable:
  "\<not> uniqueIds (current (run exampleUtils [CreateNode nodeA, CreateNode nodeA] initialState)) \<and>
   \<not> uniqueIds (current (snd (updateScene (initialScene\<lparr>nodes := [nodeA, nodeA]\<rparr>) initialState)))"
  by code_simp

section \<open>The scenarios of the spec, evaluated on the definitions\<close>

text \<open>
  From the empty scene: two nodes, a connector bound to both, then the first node deleted;
  one node and no connector are left.
\<close>

lemma scenario_delete_first_node:
  "current (run exampleUtils
     [CreateNode nodeA, CreateNode nodeB, CreateConnector connectorAB, DeleteNode ''a'']
     initialState)
   = \<lparr>icons = [], nodes = [nodeB], connectors = [], textBoxes = [], rectangles = []\<rparr>"
  by code_simp

text \<open>\<open>updateConnector("missing-id", {})\<close> on the empty scene.\<close>

lemma scenario_missing_connector:
  "updateConnector ''missing-id'' emptyConnectorUpdates initialState
     = (Inl (NotFound Connector_kind ''missing-id''), initialState)"
  by code_simp

text \<open>\<open>setScene\<close> with an input that the schema rejects (here: a repeated id).\<close>

lemma scenario_malformed_scene:
  "setScene exampleUtils (initialScene\<lparr>nodes := [nodeA, nodeA]\<rparr>) initialState
     = (Inl ValidationError, initialState)"
  by code_simp

text \<open>\<open>updateTextBox(id, {text: "Hello"})\<close>: five characters at font size 2.\<close>

lemma scenario_hello:
  "textBoxes (current (snd (updateTextBox exampleUtils ''t'' sayHello exampleStore)))
     = [textBoxT\<lparr>textBox_text := ''Hello'', textBox_size := \<lparr>width = 10, height = 1\<rparr>\<rparr>]"
  by code_simp

text \<open>\<open>updateRectangle(id, {})\<close> changes no value.\<close>

lemma scenario_empty_rectangle_update:
  "rectangles (current (snd (updateRectangle ''r'' emptyRectangleUpdates exampleStore)))
     = rectangles (current exampleStore)"
  by code_simp

end
